theory Spec2Isabelle
  imports Complex_Main "HOL-Library.Monad_Syntax" "HOL-Library.AList"
begin

section \<open>Untyped input values\<close>

text \<open>
  The validation functions of \<^verbatim>\<open>toolSchema.ts\<close> take a value of type \<^verbatim>\<open>unknown\<close>.
  Such a value is modelled as a JSON tree. Numbers are the finite ones, as rationals
  (\<^verbatim>\<open>NaN\<close> and the infinities are not JSON values). An object is the list of its entries
  in enumeration order; reading a property is \<^const>\<open>map_of\<close>, and a property that is
  missing reads as \<^verbatim>\<open>undefined\<close>, here \<^const>\<open>None\<close>.
\<close>

datatype jv =
    JNull
  | JBool bool
  | JNum rat
  | JStr string
  | JArr "jv list"
  | JObj "(string \<times> jv) list"

section \<open>The parameter and tool types\<close>

text \<open>
  The types that \<^verbatim>\<open>z.infer\<close> derives from the schemas. An optional key is an
  \<^typ>\<open>'a option\<close>; \<^const>\<open>None\<close> is the key being absent (or \<^verbatim>\<open>undefined\<close>).
\<close>

datatype ParameterType = TString | TNumber | TBoolean | TArray | TObject

datatype StringFormat = FDate | FDateTime | FEmail | FUri | FRegex | FText

datatype NumberFormat = FFloat | FDouble | FInt32 | FInt64

fun typeName :: "ParameterType \<Rightarrow> string" where
  "typeName TString = ''string''"
| "typeName TNumber = ''number''"
| "typeName TBoolean = ''boolean''"
| "typeName TArray = ''array''"
| "typeName TObject = ''object''"

fun stringFormatName :: "StringFormat \<Rightarrow> string" where
  "stringFormatName FDate = ''date''"
| "stringFormatName FDateTime = ''date-time''"
| "stringFormatName FEmail = ''email''"
| "stringFormatName FUri = ''uri''"
| "stringFormatName FRegex = ''regex''"
| "stringFormatName FText = ''text''"

fun numberFormatName :: "NumberFormat \<Rightarrow> string" where
  "numberFormatName FFloat = ''float''"
| "numberFormatName FDouble = ''double''"
| "numberFormatName FInt32 = ''int32''"
| "numberFormatName FInt64 = ''int64''"

text \<open>The keys that \<^verbatim>\<open>stringParameterSchema\<close> adds to the base schema.\<close>

record StringFields =
  s_format :: "StringFormat option"
  minLength :: "int option"
  maxLength :: "int option"
  pattern :: "string option"
  s_enum :: "string list option"
  s_default :: "string option"

text \<open>The keys that \<^verbatim>\<open>numberParameterSchema\<close> adds.\<close>

record NumberFields =
  minimum :: "rat option"
  maximum :: "rat option"
  multipleOf :: "rat option"
  n_format :: "NumberFormat option"
  n_default :: "rat option"

text \<open>The keys that \<^verbatim>\<open>arrayParameterSchema\<close> adds, \<^verbatim>\<open>items\<close> apart.\<close>

record ArrayFields =
  minItems :: "int option"
  maxItems :: "int option"
  uniqueItems :: "bool option"
  a_default :: "jv list option"

text \<open>
  The keys that \<^verbatim>\<open>objectParameterSchema\<close> adds, \<^verbatim>\<open>properties\<close> apart. Its
  \<^verbatim>\<open>required\<close> (an optional list of property names) replaces the boolean
  \<^verbatim>\<open>required\<close> of the base schema, since \<^verbatim>\<open>extend\<close> overwrites a key.
\<close>

record ObjectFields =
  o_required :: "string list option"
  additionalProperties :: "bool option"
  o_default :: "(string \<times> jv) list option"

text \<open>
  A parameter is what one of the six object schemas returns. \<open>ToolParameter\<close> is the
  result of the base schema \<^verbatim>\<open>toolParameterSchema\<close>: name, description, type and
  required, and no other key. The other constructors start with name and description
  (and the boolean required, but for an object parameter).
\<close>

datatype Parameter =
    ToolParameter string string ParameterType bool
  | StringParameter string string bool StringFields
  | NumberParameter string string bool NumberFields
  | BooleanParameter string string bool "bool option"
  | ArrayParameter string string bool Parameter ArrayFields
  | ObjectParameter string string "(string \<times> Parameter) list option" ObjectFields

record Example =
  ex_input :: "(string \<times> jv) list"
  ex_output :: "jv option"
  ex_description :: "string option"

record Tool =
  name :: string
  description :: string
  parameters :: "(string \<times> Parameter) list option"
  requiredParameters :: "string list option"
  returns :: "Parameter option"
  tags :: "string list option"
  examples :: "Example list option"
  metadata :: "(string \<times> jv) list option"

text \<open>
  What the code throws: the \<^verbatim>\<open>ZodError\<close> of a failed parse, the two errors of the
  registry, and the \<^verbatim>\<open>TypeError\<close> of reading a property of \<^verbatim>\<open>undefined\<close>.
\<close>

datatype error =
    ValidationError
  | DuplicateNameError string
  | RegistryCorruptionError string
  | TypeError

section \<open>The schemas\<close>

text \<open>
  A schema is a function from a value to the parsed result, \<^const>\<open>None\<close> when the
  parse has an issue. The combinators below are the ones of the zod library that
  \<^verbatim>\<open>toolSchema.ts\<close> uses: an object schema reads the keys of its shape and drops every
  other key of the input, a union returns the result of its first option that parses,
  \<^verbatim>\<open>optional\<close> lets \<^verbatim>\<open>undefined\<close> through and \<^verbatim>\<open>default\<close> replaces it.
\<close>

definition z_string :: "jv \<Rightarrow> string option" where
  "z_string v = (case v of JStr s \<Rightarrow> Some s | _ \<Rightarrow> None)"

definition z_string_min :: "nat \<Rightarrow> jv \<Rightarrow> string option" where
  "z_string_min n v = (case v of JStr s \<Rightarrow> if n \<le> length s then Some s else None | _ \<Rightarrow> None)"

definition z_number :: "jv \<Rightarrow> rat option" where
  "z_number v = (case v of JNum q \<Rightarrow> Some q | _ \<Rightarrow> None)"

definition z_number_int :: "jv \<Rightarrow> int option" where
  "z_number_int v = (case v of JNum q \<Rightarrow> if of_int \<lfloor>q\<rfloor> = q then Some \<lfloor>q\<rfloor> else None | _ \<Rightarrow> None)"

definition z_boolean :: "jv \<Rightarrow> bool option" where
  "z_boolean v = (case v of JBool b \<Rightarrow> Some b | _ \<Rightarrow> None)"

definition z_literal :: "string \<Rightarrow> jv \<Rightarrow> string option" where
  "z_literal l v = (case v of JStr s \<Rightarrow> if s = l then Some s else None | _ \<Rightarrow> None)"

definition z_enum :: "(string \<times> 'a) list \<Rightarrow> jv \<Rightarrow> 'a option" where
  "z_enum table v = (case v of JStr s \<Rightarrow> map_of table s | _ \<Rightarrow> None)"

definition z_any :: "jv \<Rightarrow> jv option" where
  "z_any v = Some v"

definition z_array :: "(jv \<Rightarrow> 'a option) \<Rightarrow> jv \<Rightarrow> 'a list option" where
  "z_array s v = (case v of JArr xs \<Rightarrow> those (map s xs) | _ \<Rightarrow> None)"

text \<open>
  The entries of an object that are its own keys for the code: an assignment
  \<^verbatim>\<open>o[k] = v\<close> with \<^verbatim>\<open>k\<close> the string \<^verbatim>\<open>__proto__\<close> sets the prototype of \<^verbatim>\<open>o\<close> and adds
  no key, and zod leaves that key out of the object it returns.
\<close>

definition ownEntries :: "(string \<times> 'a) list \<Rightarrow> (string \<times> 'a) list" where
  "ownEntries kvs = filter (\<lambda>(k, x). k \<noteq> ''__proto__'') kvs"

text \<open>
  \<^verbatim>\<open>z.record(z.string(), s)\<close> parses the value of every entry, fails when one of them
  fails, and returns the parsed entries without the key \<^verbatim>\<open>__proto__\<close>.
\<close>

definition z_record :: "(jv \<Rightarrow> 'a option) \<Rightarrow> jv \<Rightarrow> (string \<times> 'a) list option" where
  "z_record s v =
     (case v of
        JObj kvs \<Rightarrow> map_option ownEntries (those (map (\<lambda>(k, x). map_option (Pair k) (s x)) kvs))
      | _ \<Rightarrow> None)"

text \<open>
  The three ways a key of an object schema treats the property it reads: a plain schema
  rejects \<^verbatim>\<open>undefined\<close>, an optional one returns it, a default replaces it.
\<close>

definition z_required :: "(jv \<Rightarrow> 'a option) \<Rightarrow> jv option \<Rightarrow> 'a option" where
  "z_required s x = (case x of None \<Rightarrow> None | Some v \<Rightarrow> s v)"

definition z_optional :: "(jv \<Rightarrow> 'a option) \<Rightarrow> jv option \<Rightarrow> 'a option option" where
  "z_optional s x = (case x of None \<Rightarrow> Some None | Some v \<Rightarrow> map_option Some (s v))"

definition z_default :: "(jv \<Rightarrow> 'a option) \<Rightarrow> 'a \<Rightarrow> jv option \<Rightarrow> 'a option" where
  "z_default s d x = (case x of None \<Rightarrow> Some d | Some v \<Rightarrow> s v)"

definition z_or :: "'a option \<Rightarrow> 'a option \<Rightarrow> 'a option" where
  "z_or a b = (case a of Some p \<Rightarrow> Some p | None \<Rightarrow> b)"

definition parameterTypes :: "(string \<times> ParameterType) list" where
  "parameterTypes = map (\<lambda>t. (typeName t, t)) [TString, TNumber, TBoolean, TArray, TObject]"

definition stringFormats :: "(string \<times> StringFormat) list" where
  "stringFormats = map (\<lambda>f. (stringFormatName f, f)) [FDate, FDateTime, FEmail, FUri, FRegex, FText]"

definition numberFormats :: "(string \<times> NumberFormat) list" where
  "numberFormats = map (\<lambda>f. (numberFormatName f, f)) [FFloat, FDouble, FInt32, FInt64]"

definition toolParameterSchema :: "jv \<Rightarrow> Parameter option" where
  "toolParameterSchema v =
     (case v of
        JObj kvs \<Rightarrow> do {
          n \<leftarrow> z_required (z_string_min 1) (map_of kvs ''name'');
          d \<leftarrow> z_required z_string (map_of kvs ''description'');
          t \<leftarrow> z_required (z_enum parameterTypes) (map_of kvs ''type'');
          r \<leftarrow> z_default z_boolean False (map_of kvs ''required'');
          Some (ToolParameter n d t r) }
      | _ \<Rightarrow> None)"

definition stringParameterSchema :: "jv \<Rightarrow> Parameter option" where
  "stringParameterSchema v =
     (case v of
        JObj kvs \<Rightarrow> do {
          n \<leftarrow> z_required (z_string_min 1) (map_of kvs ''name'');
          d \<leftarrow> z_required z_string (map_of kvs ''description'');
          t \<leftarrow> z_required (z_literal ''string'') (map_of kvs ''type'');
          r \<leftarrow> z_default z_boolean False (map_of kvs ''required'');
          fmt \<leftarrow> z_optional (z_enum stringFormats) (map_of kvs ''format'');
          mn \<leftarrow> z_optional z_number_int (map_of kvs ''minLength'');
          mx \<leftarrow> z_optional z_number_int (map_of kvs ''maxLength'');
          pat \<leftarrow> z_optional z_string (map_of kvs ''pattern'');
          en \<leftarrow> z_optional (z_array z_string) (map_of kvs ''enum'');
          df \<leftarrow> z_optional z_string (map_of kvs ''default'');
          Some (StringParameter n d r
            \<lparr>s_format = fmt, minLength = mn, maxLength = mx, pattern = pat,
             s_enum = en, s_default = df\<rparr>) }
      | _ \<Rightarrow> None)"

definition numberParameterSchema :: "jv \<Rightarrow> Parameter option" where
  "numberParameterSchema v =
     (case v of
        JObj kvs \<Rightarrow> do {
          n \<leftarrow> z_required (z_string_min 1) (map_of kvs ''name'');
          d \<leftarrow> z_required z_string (map_of kvs ''description'');
          t \<leftarrow> z_required (z_literal ''number'') (map_of kvs ''type'');
          r \<leftarrow> z_default z_boolean False (map_of kvs ''required'');
          mn \<leftarrow> z_optional z_number (map_of kvs ''minimum'');
          mx \<leftarrow> z_optional z_number (map_of kvs ''maximum'');
          mo \<leftarrow> z_optional z_number (map_of kvs ''multipleOf'');
          fmt \<leftarrow> z_optional (z_enum numberFormats) (map_of kvs ''format'');
          df \<leftarrow> z_optional z_number (map_of kvs ''default'');
          Some (NumberParameter n d r
            \<lparr>minimum = mn, maximum = mx, multipleOf = mo, n_format = fmt, n_default = df\<rparr>) }
      | _ \<Rightarrow> None)"

definition booleanParameterSchema :: "jv \<Rightarrow> Parameter option" where
  "booleanParameterSchema v =
     (case v of
        JObj kvs \<Rightarrow> do {
          n \<leftarrow> z_required (z_string_min 1) (map_of kvs ''name'');
          d \<leftarrow> z_required z_string (map_of kvs ''description'');
          t \<leftarrow> z_required (z_literal ''boolean'') (map_of kvs ''type'');
          r \<leftarrow> z_default z_boolean False (map_of kvs ''required'');
          df \<leftarrow> z_optional z_boolean (map_of kvs ''default'');
          Some (BooleanParameter n d r df) }
      | _ \<Rightarrow> None)"

lemma size_property [termination_simp]:
  "map_of kvs k = Some x \<Longrightarrow> size x < Suc (size_list (size_prod (\<lambda>_. 0) size) kvs)"
  by (induction kvs) (auto split: if_splits)

text \<open>
  \<open>nestedParameterSchema\<close> is the \<^verbatim>\<open>z.lazy\<close> union that both \<^verbatim>\<open>items\<close> of
  \<^verbatim>\<open>arrayParameterSchema\<close> and the values of \<^verbatim>\<open>properties\<close> of
  \<^verbatim>\<open>objectParameterSchema\<close> are parsed with: the base schema first, then the five
  variants. \<open>nestedProperties\<close> is \<^verbatim>\<open>z.record(z.string(), ...)\<close> over that union.
\<close>

function (sequential)
  nestedParameterSchema :: "jv \<Rightarrow> Parameter option" and
  arrayParameterSchema :: "jv \<Rightarrow> Parameter option" and
  objectParameterSchema :: "jv \<Rightarrow> Parameter option" and
  nestedProperties :: "(string \<times> jv) list \<Rightarrow> (string \<times> Parameter) list option"
where
  "nestedParameterSchema v =
     z_or (toolParameterSchema v)
       (z_or (stringParameterSchema v)
          (z_or (numberParameterSchema v)
             (z_or (booleanParameterSchema v)
                (z_or (arrayParameterSchema v) (objectParameterSchema v)))))"
| "arrayParameterSchema (JObj kvs) = do {
     n \<leftarrow> z_required (z_string_min 1) (map_of kvs ''name'');
     d \<leftarrow> z_required z_string (map_of kvs ''description'');
     t \<leftarrow> z_required (z_literal ''array'') (map_of kvs ''type'');
     r \<leftarrow> z_default z_boolean False (map_of kvs ''required'');
     i \<leftarrow> (case map_of kvs ''items'' of None \<Rightarrow> None | Some x \<Rightarrow> nestedParameterSchema x);
     mn \<leftarrow> z_optional z_number_int (map_of kvs ''minItems'');
     mx \<leftarrow> z_optional z_number_int (map_of kvs ''maxItems'');
     u \<leftarrow> z_optional z_boolean (map_of kvs ''uniqueItems'');
     df \<leftarrow> z_optional (z_array z_any) (map_of kvs ''default'');
     Some (ArrayParameter n d r i
       \<lparr>minItems = mn, maxItems = mx, uniqueItems = u, a_default = df\<rparr>) }"
| "arrayParameterSchema _ = None"
| "objectParameterSchema (JObj kvs) = do {
     n \<leftarrow> z_required (z_string_min 1) (map_of kvs ''name'');
     d \<leftarrow> z_required z_string (map_of kvs ''description'');
     t \<leftarrow> z_required (z_literal ''object'') (map_of kvs ''type'');
     ps \<leftarrow> (case map_of kvs ''properties'' of
              None \<Rightarrow> Some None
            | Some (JObj props) \<Rightarrow> map_option Some (nestedProperties props)
            | Some _ \<Rightarrow> None);
     rq \<leftarrow> z_optional (z_array z_string) (map_of kvs ''required'');
     ap \<leftarrow> z_optional z_boolean (map_of kvs ''additionalProperties'');
     df \<leftarrow> z_optional (z_record z_any) (map_of kvs ''default'');
     Some (ObjectParameter n d ps
       \<lparr>o_required = rq, additionalProperties = ap, o_default = df\<rparr>) }"
| "objectParameterSchema _ = None"
| "nestedProperties [] = Some []"
| "nestedProperties ((k, x) # kvs) = do {
     p \<leftarrow> nestedParameterSchema x;
     ps \<leftarrow> nestedProperties kvs;
     Some (if k = ''__proto__'' then ps else (k, p) # ps) }"
  by pat_completeness auto
termination
  by (relation "measure (\<lambda>a. case a of
        Inl (Inl v) \<Rightarrow> 2 * size v + 1
      | Inl (Inr v) \<Rightarrow> 2 * size v
      | Inr (Inl v) \<Rightarrow> 2 * size v
      | Inr (Inr kvs) \<Rightarrow> 2 * size_list (size_prod (\<lambda>_. 0) size) kvs + 1)")
     (auto dest: size_property)

definition parameterSchema :: "jv \<Rightarrow> Parameter option" where
  "parameterSchema v =
     z_or (stringParameterSchema v)
       (z_or (numberParameterSchema v)
          (z_or (booleanParameterSchema v)
             (z_or (arrayParameterSchema v) (objectParameterSchema v))))"

definition exampleSchema :: "jv \<Rightarrow> Example option" where
  "exampleSchema v =
     (case v of
        JObj kvs \<Rightarrow> do {
          i \<leftarrow> z_required (z_record z_any) (map_of kvs ''input'');
          out \<leftarrow> z_optional z_any (map_of kvs ''output'');
          d \<leftarrow> z_optional z_string (map_of kvs ''description'');
          Some \<lparr>ex_input = i, ex_output = out, ex_description = d\<rparr> }
      | _ \<Rightarrow> None)"

definition toolSchema :: "jv \<Rightarrow> Tool option" where
  "toolSchema v =
     (case v of
        JObj kvs \<Rightarrow> do {
          n \<leftarrow> z_required (z_string_min 1) (map_of kvs ''name'');
          d \<leftarrow> z_required (z_string_min 1) (map_of kvs ''description'');
          ps \<leftarrow> z_optional (z_record parameterSchema) (map_of kvs ''parameters'');
          rp \<leftarrow> z_optional (z_array z_string) (map_of kvs ''requiredParameters'');
          rt \<leftarrow> z_optional parameterSchema (map_of kvs ''returns'');
          tg \<leftarrow> z_optional (z_array z_string) (map_of kvs ''tags'');
          ex \<leftarrow> z_optional (z_array exampleSchema) (map_of kvs ''examples'');
          md \<leftarrow> z_optional (z_record z_any) (map_of kvs ''metadata'');
          Some \<lparr>name = n, description = d, parameters = ps, requiredParameters = rp,
                returns = rt, tags = tg, examples = ex, metadata = md\<rparr> }
      | _ \<Rightarrow> None)"

definition validateParameter :: "jv \<Rightarrow> error + Parameter" where
  "validateParameter parameter =
     (case parameterSchema parameter of None \<Rightarrow> Inl ValidationError | Some p \<Rightarrow> Inr p)"

definition validateTool :: "jv \<Rightarrow> error + Tool" where
  "validateTool tool =
     (case toolSchema tool of None \<Rightarrow> Inl ValidationError | Some t \<Rightarrow> Inr t)"

section \<open>Conversion to a JSON schema\<close>

text \<open>
  The result of \<^verbatim>\<open>toolToJsonSchema\<close> is a fresh object, again a \<^typ>\<open>jv\<close>. An object
  literal is the list of its keys in the order they are written. A spread
  \<^verbatim>\<open>...(c && { k: v })\<close> adds the key when \<^verbatim>\<open>c\<close> is truthy and nothing otherwise.
  The keys of the entries of an object are distinct, so the assignments
  \<^verbatim>\<open>properties[k] = ...\<close> of a \<^verbatim>\<open>forEach\<close> over them build the list of the converted
  entries; the entry of the key \<^verbatim>\<open>__proto__\<close> is converted as the others are, and its
  assignment adds no key.
\<close>

fun truthy :: "jv \<Rightarrow> bool" where
  "truthy JNull = False"
| "truthy (JBool b) = b"
| "truthy (JNum q) = (q \<noteq> 0)"
| "truthy (JStr s) = (s \<noteq> [])"
| "truthy (JArr xs) = True"
| "truthy (JObj kvs) = True"

text \<open>\<^verbatim>\<open>...(x !== undefined && { k: x })\<close>, with \<open>enc\<close> the value as a \<^typ>\<open>jv\<close>.\<close>

definition ifDefined :: "string \<Rightarrow> ('a \<Rightarrow> jv) \<Rightarrow> 'a option \<Rightarrow> (string \<times> jv) list" where
  "ifDefined k enc x = (case x of None \<Rightarrow> [] | Some v \<Rightarrow> [(k, enc v)])"

text \<open>\<^verbatim>\<open>...(x && { k: x })\<close>.\<close>

definition ifTruthy :: "string \<Rightarrow> ('a \<Rightarrow> jv) \<Rightarrow> 'a option \<Rightarrow> (string \<times> jv) list" where
  "ifTruthy k enc x =
     (case x of None \<Rightarrow> [] | Some v \<Rightarrow> if truthy (enc v) then [(k, enc v)] else [])"

definition base :: "ParameterType \<Rightarrow> string \<Rightarrow> (string \<times> jv) list" where
  "base t d = [(''type'', JStr (typeName t)), (''description'', JStr d)]"

definition jint :: "int \<Rightarrow> jv" where
  "jint n = JNum (of_int n)"

definition jstrings :: "string list \<Rightarrow> jv" where
  "jstrings xs = JArr (map JStr xs)"

text \<open>
  \<open>parameterToJsonSchema\<close> is the inner helper of \<^verbatim>\<open>toolToJsonSchema\<close>, one equation
  for each shape of parameter and, on it, the branch that its \<^verbatim>\<open>type\<close> selects. On a
  \<open>ToolParameter\<close> every key but the four base ones reads as \<^verbatim>\<open>undefined\<close>: in the
  array branch the helper is then called on \<^verbatim>\<open>undefined\<close> and reading its
  \<^verbatim>\<open>type\<close> throws; in the object branch \<^verbatim>\<open>objectParam.required\<close> is the boolean.
  \<open>propertiesToJsonSchema\<close> is the \<^verbatim>\<open>forEach\<close> over the entries of
  \<^verbatim>\<open>objectParam.properties\<close>.
\<close>

fun parameterToJsonSchema :: "Parameter \<Rightarrow> bool \<Rightarrow> error + jv" and
  propertiesToJsonSchema :: "(string \<times> Parameter) list \<Rightarrow> string list option \<Rightarrow> error + (string \<times> jv) list"
where
  "parameterToJsonSchema (StringParameter n d r f) isRequired =
     Inr (JObj (base TString d
       @ ifTruthy ''format'' (JStr \<circ> stringFormatName) (s_format f)
       @ ifDefined ''minLength'' jint (minLength f)
       @ ifDefined ''maxLength'' jint (maxLength f)
       @ ifTruthy ''pattern'' JStr (pattern f)
       @ ifTruthy ''enum'' jstrings (s_enum f)
       @ ifDefined ''default'' JStr (s_default f)))"
| "parameterToJsonSchema (NumberParameter n d r f) isRequired =
     Inr (JObj (base TNumber d
       @ ifDefined ''minimum'' JNum (minimum f)
       @ ifDefined ''maximum'' JNum (maximum f)
       @ ifDefined ''multipleOf'' JNum (multipleOf f)
       @ ifTruthy ''format'' (JStr \<circ> numberFormatName) (n_format f)
       @ ifDefined ''default'' JNum (n_default f)))"
| "parameterToJsonSchema (BooleanParameter n d r df) isRequired =
     Inr (JObj (base TBoolean d @ ifDefined ''default'' JBool df))"
| "parameterToJsonSchema (ArrayParameter n d r items f) isRequired =
     (case parameterToJsonSchema items False of
        Inl e \<Rightarrow> Inl e
      | Inr i \<Rightarrow> Inr (JObj (base TArray d
          @ [(''items'', i)]
          @ ifDefined ''minItems'' jint (minItems f)
          @ ifDefined ''maxItems'' jint (maxItems f)
          @ ifDefined ''uniqueItems'' JBool (uniqueItems f)
          @ ifDefined ''default'' JArr (a_default f))))"
| "parameterToJsonSchema (ObjectParameter n d props f) isRequired =
     (case (case props of None \<Rightarrow> Inr [] | Some ps \<Rightarrow> propertiesToJsonSchema ps (o_required f)) of
        Inl e \<Rightarrow> Inl e
      | Inr properties \<Rightarrow> Inr (JObj (base TObject d
          @ [(''properties'', JObj properties)]
          @ ifTruthy ''required'' jstrings (o_required f)
          @ ifDefined ''additionalProperties'' JBool (additionalProperties f)
          @ ifDefined ''default'' JObj (o_default f))))"
| "parameterToJsonSchema (ToolParameter n d t r) isRequired =
     (case t of
        TString \<Rightarrow> Inr (JObj (base TString d))
      | TNumber \<Rightarrow> Inr (JObj (base TNumber d))
      | TBoolean \<Rightarrow> Inr (JObj (base TBoolean d))
      | TArray \<Rightarrow> Inl TypeError
      | TObject \<Rightarrow> Inr (JObj (base TObject d
          @ [(''properties'', JObj [])]
          @ ifTruthy ''required'' JBool (Some r))))"
| "propertiesToJsonSchema [] req = Inr []"
| "propertiesToJsonSchema ((propName, propSchema) # ps) req =
     (let isRequiredProp = (case req of None \<Rightarrow> False | Some rs \<Rightarrow> propName \<in> set rs) in
      case parameterToJsonSchema propSchema isRequiredProp of
        Inl e \<Rightarrow> Inl e
      | Inr j \<Rightarrow>
          (case propertiesToJsonSchema ps req of
             Inl e \<Rightarrow> Inl e
           | Inr js \<Rightarrow> Inr (if propName = ''__proto__'' then js else (propName, j) # js)))"

text \<open>The \<^verbatim>\<open>forEach\<close> over the entries of \<^verbatim>\<open>tool.parameters\<close>.\<close>

fun toolPropertiesToJsonSchema :: "(string \<times> Parameter) list \<Rightarrow> string list \<Rightarrow> error + (string \<times> jv) list" where
  "toolPropertiesToJsonSchema [] required = Inr []"
| "toolPropertiesToJsonSchema ((pname, param) # ps) required =
     (let isRequired = (pname \<in> set required) in
      case parameterToJsonSchema param isRequired of
        Inl e \<Rightarrow> Inl e
      | Inr j \<Rightarrow>
          (case toolPropertiesToJsonSchema ps required of
             Inl e \<Rightarrow> Inl e
           | Inr js \<Rightarrow> Inr (if pname = ''__proto__'' then js else (pname, j) # js)))"

definition toolToJsonSchema :: "Tool \<Rightarrow> error + jv" where
  "toolToJsonSchema tool =
     (let required = (case requiredParameters tool of None \<Rightarrow> [] | Some rs \<Rightarrow> rs) in
      case (case parameters tool of None \<Rightarrow> Inr [] | Some ps \<Rightarrow> toolPropertiesToJsonSchema ps required) of
        Inl e \<Rightarrow> Inl e
      | Inr properties \<Rightarrow>
          (case (case returns tool of
                   None \<Rightarrow> Inr []
                 | Some p \<Rightarrow>
                     (case parameterToJsonSchema p True of
                        Inl e \<Rightarrow> Inl e
                      | Inr j \<Rightarrow> Inr [(''returns'', j)])) of
             Inl e \<Rightarrow> Inl e
           | Inr ret \<Rightarrow>
               Inr (JObj ([(''name'', JStr (name tool)),
                           (''description'', JStr (description tool)),
                           (''parameters'', JObj [(''type'', JStr ''object''),
                                                  (''properties'', JObj properties),
                                                  (''required'', jstrings required)])]
                          @ ret))))"

section \<open>Reading a parameter and its conversion\<close>

text \<open>
  \<open>intact p\<close>: no parameter of type array in the tree \<open>p\<close>, at any depth, is a bare
  \<open>ToolParameter\<close>, which has the base keys only and so no items. These are the trees
  on which the conversion does not throw.
\<close>

fun intact :: "Parameter \<Rightarrow> bool" and
  allIntact :: "(string \<times> Parameter) list \<Rightarrow> bool"
where
  "intact (ToolParameter n d t r) = (t \<noteq> TArray)"
| "intact (StringParameter n d r f) = True"
| "intact (NumberParameter n d r f) = True"
| "intact (BooleanParameter n d r df) = True"
| "intact (ArrayParameter n d r items f) = intact items"
| "intact (ObjectParameter n d props f) =
     (case props of None \<Rightarrow> True | Some ps \<Rightarrow> allIntact ps)"
| "allIntact [] = True"
| "allIntact ((k, p) # ps) = (intact p \<and> allIntact ps)"

definition toolIntact :: "Tool \<Rightarrow> bool" where
  "toolIntact t \<longleftrightarrow>
     (case parameters t of None \<Rightarrow> True | Some ps \<Rightarrow> allIntact ps) \<and>
     (case returns t of None \<Rightarrow> True | Some p \<Rightarrow> intact p)"

text \<open>What the keys \<^verbatim>\<open>type\<close>, \<^verbatim>\<open>description\<close>, \<^verbatim>\<open>items\<close> and \<^verbatim>\<open>properties\<close> of a parameter read as.\<close>

fun typeOf :: "Parameter \<Rightarrow> ParameterType" where
  "typeOf (ToolParameter n d t r) = t"
| "typeOf (StringParameter n d r f) = TString"
| "typeOf (NumberParameter n d r f) = TNumber"
| "typeOf (BooleanParameter n d r df) = TBoolean"
| "typeOf (ArrayParameter n d r items f) = TArray"
| "typeOf (ObjectParameter n d props f) = TObject"

fun descriptionOf :: "Parameter \<Rightarrow> string" where
  "descriptionOf (ToolParameter n d t r) = d"
| "descriptionOf (StringParameter n d r f) = d"
| "descriptionOf (NumberParameter n d r f) = d"
| "descriptionOf (BooleanParameter n d r df) = d"
| "descriptionOf (ArrayParameter n d r items f) = d"
| "descriptionOf (ObjectParameter n d props f) = d"

fun itemsOf :: "Parameter \<Rightarrow> Parameter option" where
  "itemsOf (ArrayParameter n d r items f) = Some items"
| "itemsOf _ = None"

fun propertiesOf :: "Parameter \<Rightarrow> (string \<times> Parameter) list" where
  "propertiesOf (ObjectParameter n d props f) = (case props of None \<Rightarrow> [] | Some ps \<Rightarrow> ps)"
| "propertiesOf _ = []"

text \<open>
  \<open>constraintField q k\<close> is what the optional key \<open>k\<close> of the variant that the type of
  \<open>q\<close> selects reads as in the source parameter \<open>q\<close>, \<^const>\<open>None\<close> when the source does
  not have it. On a bare parameter of type object the key \<^verbatim>\<open>required\<close> reads as the
  boolean of the base schema; the other keys of a bare parameter are missing.
\<close>

fun constraintField :: "Parameter \<Rightarrow> string \<Rightarrow> jv option" where
  "constraintField (StringParameter n d r f) k =
     (if k = ''format'' then map_option (JStr \<circ> stringFormatName) (s_format f)
      else if k = ''minLength'' then map_option jint (minLength f)
      else if k = ''maxLength'' then map_option jint (maxLength f)
      else if k = ''pattern'' then map_option JStr (pattern f)
      else if k = ''enum'' then map_option jstrings (s_enum f)
      else if k = ''default'' then map_option JStr (s_default f)
      else None)"
| "constraintField (NumberParameter n d r f) k =
     (if k = ''minimum'' then map_option JNum (minimum f)
      else if k = ''maximum'' then map_option JNum (maximum f)
      else if k = ''multipleOf'' then map_option JNum (multipleOf f)
      else if k = ''format'' then map_option (JStr \<circ> numberFormatName) (n_format f)
      else if k = ''default'' then map_option JNum (n_default f)
      else None)"
| "constraintField (BooleanParameter n d r df) k =
     (if k = ''default'' then map_option JBool df else None)"
| "constraintField (ArrayParameter n d r items f) k =
     (if k = ''minItems'' then map_option jint (minItems f)
      else if k = ''maxItems'' then map_option jint (maxItems f)
      else if k = ''uniqueItems'' then map_option JBool (uniqueItems f)
      else if k = ''default'' then map_option JArr (a_default f)
      else None)"
| "constraintField (ObjectParameter n d props f) k =
     (if k = ''required'' then map_option jstrings (o_required f)
      else if k = ''additionalProperties'' then map_option JBool (additionalProperties f)
      else if k = ''default'' then map_option JObj (o_default f)
      else None)"
| "constraintField (ToolParameter n d t r) k =
     (if t = TObject \<and> k = ''required'' then Some (JBool r) else None)"

fun isObjectParameter :: "Parameter \<Rightarrow> bool" where
  "isObjectParameter (ObjectParameter n d props f) = True"
| "isObjectParameter _ = False"

text \<open>A converted entry has the name of the source entry and holds its conversion.\<close>

definition convertedEntry :: "string \<times> Parameter \<Rightarrow> string \<times> jv \<Rightarrow> bool" where
  "convertedEntry e c \<longleftrightarrow> fst c = fst e \<and> parameterToJsonSchema (snd e) False = Inr (snd c)"

text \<open>
  \<open>propagated q kvs\<close>: the converted object \<open>kvs\<close> is what the source parameter \<open>q\<close>
  gives, key by key.
  \<^item> \<^verbatim>\<open>type\<close> and \<^verbatim>\<open>description\<close> are those of \<open>q\<close>.
  \<^item> Every other key but \<^verbatim>\<open>items\<close> and \<^verbatim>\<open>properties\<close> reads in \<open>kvs\<close> as
    \<open>constraintField\<close> reads it in \<open>q\<close>: an optional key of the variant of \<open>q\<close> is
    present, with the value of \<open>q\<close>, exactly when \<open>q\<close> has it, and no other key is
    present. The one exception is a \<^verbatim>\<open>pattern\<close> or \<^verbatim>\<open>required\<close> that \<open>q\<close> has with a
    value that is not truthy: such a key may also be missing from \<open>kvs\<close>.
  \<^item> \<^verbatim>\<open>properties\<close> is a key of \<open>kvs\<close> exactly when \<open>q\<close> is of type object, and holds
    the object of the converted entries of \<open>q\<close>, in their order and nothing else: the
    empty object when \<open>q\<close> has no entries.
  \<^item> \<^verbatim>\<open>items\<close> is a key of \<open>kvs\<close> exactly when \<open>q\<close> is of type array, and holds the
    conversion of the items of \<open>q\<close>.
\<close>

definition propagated :: "Parameter \<Rightarrow> (string \<times> jv) list \<Rightarrow> bool" where
  "propagated q kvs \<longleftrightarrow>
     map_of kvs ''type'' = Some (JStr (typeName (typeOf q))) \<and>
     map_of kvs ''description'' = Some (JStr (descriptionOf q)) \<and>
     (\<forall>k. k \<notin> {''type'', ''description'', ''items'', ''properties''} \<longrightarrow>
        map_of kvs k = constraintField q k \<or>
        k \<in> {''pattern'', ''required''} \<and> (\<exists>v. constraintField q k = Some v \<and> \<not> truthy v) \<and>
          map_of kvs k = None) \<and>
     (if typeOf q = TObject
      then \<exists>js. map_of kvs ''properties'' = Some (JObj js) \<and>
             list_all2 convertedEntry (ownEntries (propertiesOf q)) js
      else map_of kvs ''properties'' = None) \<and>
     (if typeOf q = TArray
      then \<exists>i j. itemsOf q = Some i \<and> parameterToJsonSchema i False = Inr j \<and>
             map_of kvs ''items'' = Some j
      else map_of kvs ''items'' = None)"

text \<open>
  A nested parameter and its converted object are found by the same path of keys:
  \<^verbatim>\<open>items\<close> leads to the items of an array parameter, \<^verbatim>\<open>properties\<close> and the name of
  an own entry to a property of an object parameter. In a tool a path starts with
  \<^verbatim>\<open>parameters\<close>, \<^verbatim>\<open>properties\<close> and the name of an own entry, or with \<^verbatim>\<open>returns\<close>.
\<close>

fun paramAt :: "Parameter \<Rightarrow> string list \<Rightarrow> Parameter option" where
  "paramAt p [] = Some p"
| "paramAt (ArrayParameter n d r items f) (k # path) =
     (if k = ''items'' then paramAt items path else None)"
| "paramAt (ObjectParameter n d props f) (k # pn # path) =
     (if k = ''properties''
      then (case props of
              None \<Rightarrow> None
            | Some ps \<Rightarrow>
                (case map_of (ownEntries ps) pn of None \<Rightarrow> None | Some q \<Rightarrow> paramAt q path))
      else None)"
| "paramAt _ _ = None"

fun jsonAt :: "jv \<Rightarrow> string list \<Rightarrow> jv option" where
  "jsonAt j [] = Some j"
| "jsonAt (JObj kvs) (k # path) = (case map_of kvs k of None \<Rightarrow> None | Some j \<Rightarrow> jsonAt j path)"
| "jsonAt _ _ = None"

definition toolParamAt :: "Tool \<Rightarrow> string list \<Rightarrow> Parameter option" where
  "toolParamAt t path =
     (case path of
        [] \<Rightarrow> None
      | a # rest \<Rightarrow>
          if a = ''returns'' then (case returns t of None \<Rightarrow> None | Some p \<Rightarrow> paramAt p rest)
          else if a = ''parameters'' then
            (case rest of
               b # pn # rest' \<Rightarrow>
                 if b = ''properties''
                 then (case parameters t of
                         None \<Rightarrow> None
                       | Some ps \<Rightarrow>
                           (case map_of (ownEntries ps) pn of
                              None \<Rightarrow> None
                            | Some p \<Rightarrow> paramAt p rest'))
                 else None
             | _ \<Rightarrow> None)
          else None)"

section \<open>The registry\<close>

text \<open>
  The two private maps of \<^verbatim>\<open>ToolRegistry\<close>. A \<^verbatim>\<open>Map\<close> is the list of its entries in
  insertion order (\<open>set\<close> is \<^const>\<open>AList.update\<close>, \<open>delete\<close> is \<^const>\<open>AList.delete\<close>,
  \<open>get\<close> is \<^const>\<open>map_of\<close>), a \<^verbatim>\<open>Set\<close> the list of its elements in insertion
  order. A method takes the registry and returns its result with the registry after
  the call, also when it throws.
\<close>

record ToolRegistry =
  tools :: "(string \<times> Tool) list"
  tags :: "(string \<times> string list) list"

definition emptyRegistry :: ToolRegistry where
  "emptyRegistry = \<lparr>tools = [], tags = []\<rparr>"

definition setAdd :: "string \<Rightarrow> string list \<Rightarrow> string list" where
  "setAdd x xs = (if x \<in> set xs then xs else xs @ [x])"

text \<open>One round of the \<^verbatim>\<open>forEach\<close> over \<^verbatim>\<open>validatedTool.tags\<close> in \<^verbatim>\<open>registerTool\<close>.\<close>

definition indexTag :: "string \<Rightarrow> (string \<times> string list) list \<Rightarrow> string \<Rightarrow> (string \<times> string list) list" where
  "indexTag toolName idx tag =
     (let idx1 = (if map_of idx tag = None then AList.update tag [] idx else idx) in
      case map_of idx1 tag of
        None \<Rightarrow> idx1
      | Some names \<Rightarrow> AList.update tag (setAdd toolName names) idx1)"

definition registerTool :: "jv \<Rightarrow> ToolRegistry \<Rightarrow> (error + Tool) \<times> ToolRegistry" where
  "registerTool tool r =
     (case validateTool tool of
        Inl e \<Rightarrow> (Inl e, r)
      | Inr validatedTool \<Rightarrow>
          if map_of (tools r) (name validatedTool) \<noteq> None
          then (Inl (DuplicateNameError (name validatedTool)), r)
          else
            let r1 = r\<lparr>tools := AList.update (name validatedTool) validatedTool (tools r)\<rparr>;
                r2 = (case Tool.tags validatedTool of
                        None \<Rightarrow> r1
                      | Some ts \<Rightarrow>
                          if length ts > 0
                          then r1\<lparr>tags := foldl (indexTag (name validatedTool)) (tags r1) ts\<rparr>
                          else r1)
            in (Inr validatedTool, r2))"

definition getTool :: "string \<Rightarrow> ToolRegistry \<Rightarrow> Tool option" where
  "getTool n r = map_of (tools r) n"

definition getAllTools :: "ToolRegistry \<Rightarrow> Tool list" where
  "getAllTools r = map snd (tools r)"

fun resolveNames :: "(string \<times> Tool) list \<Rightarrow> string list \<Rightarrow> error + Tool list" where
  "resolveNames ts [] = Inr []"
| "resolveNames ts (n # ns) =
     (case map_of ts n of
        None \<Rightarrow> Inl (RegistryCorruptionError n)
      | Some tool \<Rightarrow>
          (case resolveNames ts ns of Inl e \<Rightarrow> Inl e | Inr found \<Rightarrow> Inr (tool # found)))"

definition getToolsByTag :: "string \<Rightarrow> ToolRegistry \<Rightarrow> error + Tool list" where
  "getToolsByTag tag r =
     (case map_of (tags r) tag of
        None \<Rightarrow> Inr []
      | Some toolNames \<Rightarrow> resolveNames (tools r) toolNames)"

text \<open>One round of the \<^verbatim>\<open>forEach\<close> over \<^verbatim>\<open>tool.tags\<close> in \<^verbatim>\<open>unregisterTool\<close>.\<close>

definition unindexTag :: "string \<Rightarrow> (string \<times> string list) list \<Rightarrow> string \<Rightarrow> (string \<times> string list) list" where
  "unindexTag toolName idx tag =
     (case map_of idx tag of
        None \<Rightarrow> idx
      | Some toolsWithTag \<Rightarrow>
          let rest = removeAll toolName toolsWithTag in
          if length rest = 0 then AList.delete tag idx else AList.update tag rest idx)"

definition unregisterTool :: "string \<Rightarrow> ToolRegistry \<Rightarrow> bool \<times> ToolRegistry" where
  "unregisterTool n r =
     (case map_of (tools r) n of
        None \<Rightarrow> (False, r)
      | Some tool \<Rightarrow>
          let r1 = r\<lparr>tools := AList.delete n (tools r)\<rparr>;
              r2 = (case Tool.tags tool of
                      None \<Rightarrow> r1
                    | Some ts \<Rightarrow> r1\<lparr>tags := foldl (unindexTag n) (tags r1) ts\<rparr>)
          in (True, r2))"

fun registerTools :: "jv list \<Rightarrow> ToolRegistry \<Rightarrow> (error + Tool list) \<times> ToolRegistry" where
  "registerTools [] r = (Inr [], r)"
| "registerTools (tool # rest) r =
     (case registerTool tool r of
        (Inl e, r1) \<Rightarrow> (Inl e, r1)
      | (Inr registered, r1) \<Rightarrow>
          (case registerTools rest r1 of
             (Inl e, r2) \<Rightarrow> (Inl e, r2)
           | (Inr others, r2) \<Rightarrow> (Inr (registered # others), r2)))"

definition hasTool :: "string \<Rightarrow> ToolRegistry \<Rightarrow> bool" where
  "hasTool n r = (map_of (tools r) n \<noteq> None)"

definition getAllTags :: "ToolRegistry \<Rightarrow> string list" where
  "getAllTags r = map fst (tags r)"

definition clear :: "ToolRegistry \<Rightarrow> ToolRegistry" where
  "clear r = r\<lparr>tools := [], tags := []\<rparr>"

definition registrySize :: "ToolRegistry \<Rightarrow> nat" where
  "registrySize r = length (tools r)"

definition tagCount :: "ToolRegistry \<Rightarrow> nat" where
  "tagCount r = length (tags r)"

text \<open>The states of a registry: a new one, and what any method makes of one.\<close>

inductive reachable :: "ToolRegistry \<Rightarrow> bool" where
  new: "reachable emptyRegistry"
| registerTool: "reachable r \<Longrightarrow> reachable (snd (registerTool tool r))"
| registerTools: "reachable r \<Longrightarrow> reachable (snd (registerTools ts r))"
| unregisterTool: "reachable r \<Longrightarrow> reachable (snd (unregisterTool n r))"
| clear: "reachable r \<Longrightarrow> reachable (clear r)"

text \<open>The names that the tag index holds under a tag, and the tags of a tool.\<close>

definition bucket :: "(string \<times> string list) list \<Rightarrow> string \<Rightarrow> string set" where
  "bucket idx t = (case map_of idx t of None \<Rightarrow> {} | Some names \<Rightarrow> set names)"

definition toolTags :: "Tool \<Rightarrow> string list" where
  "toolTags tool = (case Tool.tags tool of None \<Rightarrow> [] | Some ts \<Rightarrow> ts)"

text \<open>The two halves of the registry invariant: no bucket is empty, and the index agrees with the tools.\<close>

definition noEmptyBucket :: "(string \<times> string list) list \<Rightarrow> bool" where
  "noEmptyBucket idx \<longleftrightarrow> (\<forall>t names. map_of idx t = Some names \<longrightarrow> names \<noteq> [])"

definition consistent :: "ToolRegistry \<Rightarrow> bool" where
  "consistent r \<longleftrightarrow>
     (\<forall>t n. n \<in> bucket (tags r) t \<longleftrightarrow>
        (\<exists>tool. map_of (tools r) n = Some tool \<and> t \<in> set (toolTags tool))) \<and>
     noEmptyBucket (tags r)"

text \<open>
  What makes a list of entries a \<^verbatim>\<open>Map\<close> and a list of names a \<^verbatim>\<open>Set\<close>: no key and
  no name occurs twice.
\<close>

definition distinctIndex :: "(string \<times> string list) list \<Rightarrow> bool" where
  "distinctIndex idx \<longleftrightarrow>
     distinct (map fst idx) \<and> (\<forall>t names. map_of idx t = Some names \<longrightarrow> distinct names)"

definition distinctKeys :: "ToolRegistry \<Rightarrow> bool" where
  "distinctKeys r \<longleftrightarrow> distinct (map fst (tools r)) \<and> distinctIndex (tags r)"

section \<open>Sample values\<close>

definition echoTool :: jv where
  "echoTool = JObj [(''name'', JStr ''echo''), (''description'', JStr ''Repeats its input''),
     (''tags'', JArr [JStr ''util'', JStr ''text''])]"

definition echoValidated :: Tool where
  "echoValidated = \<lparr>name = ''echo'', description = ''Repeats its input'', parameters = None,
     requiredParameters = None, returns = None, tags = Some [''util'', ''text''],
     examples = None, metadata = None\<rparr>"

definition echoRegistry :: ToolRegistry where
  "echoRegistry = \<lparr>tools = [(''echo'', echoValidated)],
     tags = [(''util'', [''echo'']), (''text'', [''echo''])]\<rparr>"

definition clockTool :: jv where
  "clockTool = JObj [(''name'', JStr ''clock''), (''description'', JStr ''Tells the time''),
     (''tags'', JArr [JStr ''util''])]"

definition clockValidated :: Tool where
  "clockValidated = \<lparr>name = ''clock'', description = ''Tells the time'', parameters = None,
     requiredParameters = None, returns = None, tags = Some [''util''],
     examples = None, metadata = None\<rparr>"

definition echoClockRegistry :: ToolRegistry where
  "echoClockRegistry = \<lparr>tools = [(''echo'', echoValidated), (''clock'', clockValidated)],
     tags = [(''util'', [''echo'', ''clock'']), (''text'', [''echo''])]\<rparr>"

definition clockRegistry :: ToolRegistry where
  "clockRegistry = \<lparr>tools = [(''clock'', clockValidated)], tags = [(''util'', [''clock''])]\<rparr>"

text \<open>A tool with the name of \<open>echoTool\<close> and an empty description, which the schema refuses.\<close>

definition blankEchoTool :: jv where
  "blankEchoTool = JObj [(''name'', JStr ''echo''), (''description'', JStr '''')]"

text \<open>A registry that no sequence of calls produces: its index names a tool it does not hold.\<close>

definition corruptRegistry :: ToolRegistry where
  "corruptRegistry = \<lparr>tools = [(''echo'', echoValidated)],
     tags = [(''util'', [''echo'', ''ghost''])]\<rparr>"

text \<open>
  A tool whose \<^verbatim>\<open>requiredParameters\<close> names \<open>ghost\<close>, which is not one of its
  parameters, and whose example gives a \<open>field\<close> that is not one either.
\<close>

definition lookupTool :: jv where
  "lookupTool = JObj [(''name'', JStr ''lookup''), (''description'', JStr ''Looks a key up''),
     (''parameters'', JObj [(''key'', JObj [(''name'', JStr ''key''),
        (''description'', JStr ''The key''), (''type'', JStr ''string'')])]),
     (''requiredParameters'', JArr [JStr ''key'', JStr ''ghost'']),
     (''returns'', JObj [(''name'', JStr ''value''), (''description'', JStr ''The value of a field''),
        (''type'', JStr ''number'')]),
     (''examples'', JArr [JObj [(''input'', JObj [(''field'', JStr ''a'')]), (''output'', JNum 1)]])]"

definition lookupValidated :: Tool where
  "lookupValidated = \<lparr>name = ''lookup'', description = ''Looks a key up'',
     parameters = Some [(''key'', StringParameter ''key'' ''The key'' False
        \<lparr>s_format = None, minLength = None, maxLength = None, pattern = None,
         s_enum = None, s_default = None\<rparr>)],
     requiredParameters = Some [''key'', ''ghost''],
     returns = Some (NumberParameter ''value'' ''The value of a field'' False
        \<lparr>minimum = None, maximum = None, multipleOf = None, n_format = None, n_default = None\<rparr>),
     tags = None,
     examples = Some [\<lparr>ex_input = [(''field'', JStr ''a'')], ex_output = Some (JNum 1),
        ex_description = None\<rparr>],
     metadata = None\<rparr>"

text \<open>A string parameter with two constraints, and a tool that has it as the items of an array.\<close>

definition nameItem :: jv where
  "nameItem = JObj [(''name'', JStr ''n''), (''description'', JStr ''A name''),
     (''type'', JStr ''string''), (''minLength'', JNum 3),
     (''enum'', JArr [JStr ''ada'', JStr ''bob''])]"

definition greetTool :: jv where
  "greetTool = JObj [(''name'', JStr ''greet''), (''description'', JStr ''Greets people''),
     (''parameters'', JObj [(''names'', JObj [(''name'', JStr ''names''),
        (''description'', JStr ''Whom to greet''), (''type'', JStr ''array''),
        (''items'', nameItem), (''minItems'', JNum 1)])])]"

text \<open>A tool with an array of arrays of numbers as its parameter.\<close>

definition matrixTool :: jv where
  "matrixTool = JObj [(''name'', JStr ''sum''), (''description'', JStr ''Adds up a matrix''),
     (''parameters'', JObj [(''rows'', JObj [(''name'', JStr ''rows''),
        (''description'', JStr ''The rows''), (''type'', JStr ''array''),
        (''items'', JObj [(''name'', JStr ''row''), (''description'', JStr ''A row''),
           (''type'', JStr ''array''),
           (''items'', JObj [(''name'', JStr ''cell''), (''description'', JStr ''A cell''),
              (''type'', JStr ''number'')])])])])]"

definition matrixValidated :: Tool where
  "matrixValidated = \<lparr>name = ''sum'', description = ''Adds up a matrix'',
     parameters = Some [(''rows'', ArrayParameter ''rows'' ''The rows'' False
        (ToolParameter ''row'' ''A row'' TArray False)
        \<lparr>minItems = None, maxItems = None, uniqueItems = None, a_default = None\<rparr>)],
     requiredParameters = None, returns = None, tags = None, examples = None, metadata = None\<rparr>"

text \<open>
  A tool, before and after validation, with an object parameter that holds an object,
  and an array parameter whose items are objects. A nested object that gives
  \<^verbatim>\<open>required\<close> as a list of names is not parsed by the base schema, whose
  \<^verbatim>\<open>required\<close> is a boolean, and so keeps the keys of its variant; the nested
  strings and numbers are parsed by the base schema.
\<close>

definition latJson :: jv where
  "latJson = JObj [(''name'', JStr ''lat''), (''description'', JStr ''Latitude''),
     (''type'', JStr ''number'')]"

definition geoJson :: jv where
  "geoJson = JObj [(''name'', JStr ''geo''), (''description'', JStr ''Coordinates''),
     (''type'', JStr ''object''), (''required'', JArr [JStr ''lat'']),
     (''additionalProperties'', JBool False), (''properties'', JObj [(''lat'', latJson)])]"

definition cityJson :: jv where
  "cityJson = JObj [(''name'', JStr ''city''), (''description'', JStr ''City''),
     (''type'', JStr ''string'')]"

definition addressJson :: jv where
  "addressJson = JObj [(''name'', JStr ''address''), (''description'', JStr ''Where to''),
     (''type'', JStr ''object''), (''required'', JArr [JStr ''city'']),
     (''properties'', JObj [(''city'', cityJson), (''geo'', geoJson)])]"

definition textJson :: jv where
  "textJson = JObj [(''name'', JStr ''text''), (''description'', JStr ''Text''),
     (''type'', JStr ''string'')]"

definition labelJson :: jv where
  "labelJson = JObj [(''name'', JStr ''label''), (''description'', JStr ''A label''),
     (''type'', JStr ''object''), (''required'', JArr [JStr ''text'']),
     (''properties'', JObj [(''text'', textJson)])]"

definition labelsJson :: jv where
  "labelsJson = JObj [(''name'', JStr ''labels''), (''description'', JStr ''Labels''),
     (''type'', JStr ''array''), (''minItems'', JNum 1), (''uniqueItems'', JBool False),
     (''items'', labelJson)]"

definition shipTool :: jv where
  "shipTool = JObj [(''name'', JStr ''ship''), (''description'', JStr ''Ships a parcel''),
     (''parameters'', JObj [(''address'', addressJson), (''labels'', labelsJson)]),
     (''requiredParameters'', JArr [JStr ''address''])]"

definition geoParameter :: Parameter where
  "geoParameter = ObjectParameter ''geo'' ''Coordinates''
     (Some [(''lat'', ToolParameter ''lat'' ''Latitude'' TNumber False)])
     \<lparr>o_required = Some [''lat''], additionalProperties = Some False, o_default = None\<rparr>"

definition labelParameter :: Parameter where
  "labelParameter = ObjectParameter ''label'' ''A label''
     (Some [(''text'', ToolParameter ''text'' ''Text'' TString False)])
     \<lparr>o_required = Some [''text''], additionalProperties = None, o_default = None\<rparr>"

definition labelsParameter :: Parameter where
  "labelsParameter = ArrayParameter ''labels'' ''Labels'' False labelParameter
     \<lparr>minItems = Some 1, maxItems = None, uniqueItems = Some False, a_default = None\<rparr>"

definition addressParameter :: Parameter where
  "addressParameter = ObjectParameter ''address'' ''Where to''
     (Some [(''city'', ToolParameter ''city'' ''City'' TString False), (''geo'', geoParameter)])
     \<lparr>o_required = Some [''city''], additionalProperties = None, o_default = None\<rparr>"

definition shipValidated :: Tool where
  "shipValidated = \<lparr>name = ''ship'', description = ''Ships a parcel'',
     parameters = Some [(''address'', addressParameter), (''labels'', labelsParameter)],
     requiredParameters = Some [''address''], returns = None, tags = None, examples = None,
     metadata = None\<rparr>"

text \<open>A tool with an object parameter that has no \<^verbatim>\<open>properties\<close>, before and after validation.\<close>

definition pingTool :: jv where
  "pingTool = JObj [(''name'', JStr ''ping''), (''description'', JStr ''Pings a host''),
     (''parameters'', JObj [(''opts'', JObj [(''name'', JStr ''opts''),
        (''description'', JStr ''Options''), (''type'', JStr ''object'')])])]"

definition optsParameter :: Parameter where
  "optsParameter = ObjectParameter ''opts'' ''Options'' None
     \<lparr>o_required = None, additionalProperties = None, o_default = None\<rparr>"

definition pingValidated :: Tool where
  "pingValidated = \<lparr>name = ''ping'', description = ''Pings a host'',
     parameters = Some [(''opts'', optsParameter)],
     requiredParameters = None, returns = None, tags = None, examples = None, metadata = None\<rparr>"

section \<open>Evaluating the schemas\<close>

lemmas zod_defs = z_string_def z_string_min_def z_number_def z_number_int_def z_boolean_def
  z_literal_def z_enum_def z_any_def z_array_def z_record_def z_required_def z_optional_def
  z_default_def z_or_def parameterTypes_def stringFormats_def numberFormats_def ownEntries_def

lemmas schema_defs = validateTool_def toolSchema_def parameterSchema_def exampleSchema_def
  stringParameterSchema_def numberParameterSchema_def booleanParameterSchema_def
  toolParameterSchema_def

lemma validate_echoTool: "validateTool echoTool = Inr echoValidated"
  by (simp add: echoTool_def echoValidated_def schema_defs zod_defs)

lemma validate_clockTool: "validateTool clockTool = Inr clockValidated"
  by (simp add: clockTool_def clockValidated_def schema_defs zod_defs)

lemma validate_blankEchoTool: "validateTool blankEchoTool = Inl ValidationError"
  by (simp add: blankEchoTool_def schema_defs zod_defs)

lemma validate_pingTool: "validateTool pingTool = Inr pingValidated"
  by (simp add: pingTool_def pingValidated_def optsParameter_def schema_defs zod_defs)

text \<open>The parameters of \<open>shipTool\<close> are parsed from the inside out.\<close>

lemmas variant_defs = stringParameterSchema_def numberParameterSchema_def
  booleanParameterSchema_def toolParameterSchema_def

lemma nested_latJson:
  "nestedParameterSchema latJson = Some (ToolParameter ''lat'' ''Latitude'' TNumber False)"
  by (simp add: latJson_def variant_defs zod_defs)

lemma nested_cityJson:
  "nestedParameterSchema cityJson = Some (ToolParameter ''city'' ''City'' TString False)"
  by (simp add: cityJson_def variant_defs zod_defs)

lemma nested_textJson:
  "nestedParameterSchema textJson = Some (ToolParameter ''text'' ''Text'' TString False)"
  by (simp add: textJson_def variant_defs zod_defs)

lemma nested_labelJson: "nestedParameterSchema labelJson = Some labelParameter"
proof -
  have "toolParameterSchema labelJson = None" "stringParameterSchema labelJson = None"
    "numberParameterSchema labelJson = None" "booleanParameterSchema labelJson = None"
    by (simp_all add: labelJson_def variant_defs zod_defs)
  moreover have "arrayParameterSchema labelJson = None"
    by (simp add: labelJson_def zod_defs del: nestedParameterSchema.simps)
  moreover have "objectParameterSchema labelJson = Some labelParameter"
    by (simp add: labelJson_def labelParameter_def zod_defs nested_textJson
        del: nestedParameterSchema.simps)
  ultimately show ?thesis
    by (simp only: nestedParameterSchema.simps[of labelJson] z_or_def option.case)
qed

lemma nested_geoJson: "nestedParameterSchema geoJson = Some geoParameter"
proof -
  have "toolParameterSchema geoJson = None" "stringParameterSchema geoJson = None"
    "numberParameterSchema geoJson = None" "booleanParameterSchema geoJson = None"
    by (simp_all add: geoJson_def variant_defs zod_defs)
  moreover have "arrayParameterSchema geoJson = None"
    by (simp add: geoJson_def zod_defs del: nestedParameterSchema.simps)
  moreover have "objectParameterSchema geoJson = Some geoParameter"
    by (simp add: geoJson_def geoParameter_def zod_defs nested_latJson
        del: nestedParameterSchema.simps)
  ultimately show ?thesis
    by (simp only: nestedParameterSchema.simps[of geoJson] z_or_def option.case)
qed

lemma parameter_addressJson: "parameterSchema addressJson = Some addressParameter"
proof -
  have "stringParameterSchema addressJson = None"
    "numberParameterSchema addressJson = None" "booleanParameterSchema addressJson = None"
    by (simp_all add: addressJson_def variant_defs zod_defs)
  moreover have "arrayParameterSchema addressJson = None"
    by (simp add: addressJson_def zod_defs del: nestedParameterSchema.simps)
  moreover have "objectParameterSchema addressJson = Some addressParameter"
    by (simp add: addressJson_def addressParameter_def zod_defs nested_cityJson nested_geoJson
        del: nestedParameterSchema.simps)
  ultimately show ?thesis
    by (simp only: parameterSchema_def z_or_def option.case)
qed

lemma parameter_labelsJson: "parameterSchema labelsJson = Some labelsParameter"
proof -
  have "stringParameterSchema labelsJson = None"
    "numberParameterSchema labelsJson = None" "booleanParameterSchema labelsJson = None"
    by (simp_all add: labelsJson_def variant_defs zod_defs)
  moreover have "arrayParameterSchema labelsJson = Some labelsParameter"
    by (simp add: labelsJson_def labelsParameter_def zod_defs nested_labelJson
        del: nestedParameterSchema.simps)
  ultimately show ?thesis
    by (simp only: parameterSchema_def z_or_def option.case)
qed

lemma validate_shipTool: "validateTool shipTool = Inr shipValidated"
  by (simp add: shipTool_def shipValidated_def
      validateTool_def toolSchema_def parameter_addressJson parameter_labelsJson zod_defs)

lemma register_echoTool: "registerTool echoTool emptyRegistry = (Inr echoValidated, echoRegistry)"
  by (simp add: registerTool_def validate_echoTool)
     (simp add: echoValidated_def emptyRegistry_def echoRegistry_def indexTag_def setAdd_def)

lemma register_clockTool: "registerTool clockTool echoRegistry = (Inr clockValidated, echoClockRegistry)"
  by (simp add: registerTool_def validate_clockTool)
     (simp add: clockValidated_def echoRegistry_def echoClockRegistry_def indexTag_def setAdd_def)

lemma reachable_echoRegistry: "reachable echoRegistry"
  using reachable.registerTool[OF reachable.new, of echoTool] by (simp add: register_echoTool)

lemma reachable_echoClockRegistry: "reachable echoClockRegistry"
  using reachable.registerTool[OF reachable_echoRegistry, of clockTool] by (simp add: register_clockTool)

section \<open>Registration\<close>

lemma registerTool_fails_unchanged:
  "fst (registerTool t r) = Inl e \<Longrightarrow> snd (registerTool t r) = r"
  by (auto simp: registerTool_def Let_def split: sum.splits if_splits option.splits)

lemma registerTool_tools:
  "registerTool t r = (Inr v, r') \<Longrightarrow>
     validateTool t = Inr v \<and> map_of (tools r) (name v) = None \<and>
     tools r' = AList.update (name v) v (tools r)"
  by (auto simp: registerTool_def Let_def split: sum.splits if_splits option.splits)

lemma validateTool_name:
  "validateTool t = Inr v \<Longrightarrow> \<exists>kvs. t = JObj kvs \<and> map_of kvs ''name'' = Some (JStr (name v))"
  by (auto simp: validateTool_def toolSchema_def z_required_def z_string_min_def
      split: option.splits jv.splits Option.bind_splits if_splits)

text \<open>
  C3. If \<open>t\<close> validates to \<open>v\<close> and no tool of that name is registered, then
  \<open>registerTool t\<close> returns \<open>v\<close>, and \<open>getTool\<close> on the name of \<open>t\<close> (which is the
  name of \<open>v\<close>) then returns \<open>v\<close> itself, the validated form of \<open>t\<close>.
\<close>

theorem register_then_get:
  assumes "validateTool t = Inr v" and "\<not> hasTool (name v) r"
  shows "\<exists>r' kvs. registerTool t r = (Inr v, r') \<and> getTool (name v) r' = Some v \<and>
           t = JObj kvs \<and> map_of kvs ''name'' = Some (JStr (name v))"
proof -
  from assms have "\<exists>r'. registerTool t r = (Inr v, r') \<and> getTool (name v) r' = Some v"
    by (auto simp: registerTool_def getTool_def hasTool_def Let_def update_conv' split: option.splits)
  with validateTool_name[OF assms(1)] show ?thesis by blast
qed

theorem register_then_get_witness:
  "validateTool clockTool = Inr clockValidated \<and> \<not> hasTool (name clockValidated) echoRegistry \<and>
   (\<exists>r' kvs. registerTool clockTool echoRegistry = (Inr clockValidated, r') \<and>
      getTool (name clockValidated) r' = Some clockValidated \<and>
      clockTool = JObj kvs \<and> map_of kvs ''name'' = Some (JStr (name clockValidated)))"
proof -
  have h: "\<not> hasTool (name clockValidated) echoRegistry"
    by (simp add: hasTool_def clockValidated_def echoRegistry_def)
  from register_then_get[OF validate_clockTool h] validate_clockTool h show ?thesis by blast
qed

text \<open>
  C4 as it is stated fails on a tool that the schema refuses: \<open>registerTool\<close>
  validates before it looks the name up, so registering \<open>blankEchoTool\<close>, whose
  name \<open>echo\<close> is a key of \<open>echoRegistry\<close>, fails with the validation error and not
  with \<open>DuplicateNameError\<close>.
\<close>

theorem invalid_duplicate_no_duplicate_error:
  "blankEchoTool = JObj [(''name'', JStr ''echo''), (''description'', JStr '''')] \<and>
   hasTool ''echo'' echoRegistry \<and>
   registerTool blankEchoTool echoRegistry = (Inl ValidationError, echoRegistry)"
  by (simp add: registerTool_def validate_blankEchoTool)
     (simp add: blankEchoTool_def hasTool_def echoRegistry_def)

text \<open>
  C4, as the code has it. Registering a tool \<open>t\<close> whose name \<open>n\<close> is already a key
  of the registry fails, and the registry after the call is the registry before it:
  the tools map and the tag index, hence \<open>getAllTools\<close>, the size and \<open>tagCount\<close>,
  are unchanged. The error is \<open>DuplicateNameError n\<close> when \<open>t\<close> validates, and the
  error of the validation when it does not. Names are compared as strings, so the
  comparison is exact.
\<close>

theorem duplicate_name_fails:
  assumes "t = JObj kvs" and "map_of kvs ''name'' = Some (JStr n)" and "hasTool n r"
  shows "registerTool t r =
           (Inl (case validateTool t of Inl e \<Rightarrow> e | Inr v \<Rightarrow> DuplicateNameError n), r)"
proof (cases "validateTool t")
  case (Inl e)
  then show ?thesis by (simp add: registerTool_def)
next
  case (Inr v)
  from validateTool_name[OF Inr] assms(1,2) have "name v = n" by simp
  with Inr assms(3) show ?thesis by (auto simp: registerTool_def hasTool_def)
qed

theorem duplicate_name_fails_witness:
  "echoTool = JObj [(''name'', JStr ''echo''), (''description'', JStr ''Repeats its input''),
     (''tags'', JArr [JStr ''util'', JStr ''text''])] \<and>
   map_of [(''name'', JStr ''echo''), (''description'', JStr ''Repeats its input''),
     (''tags'', JArr [JStr ''util'', JStr ''text''])] ''name'' = Some (JStr ''echo'') \<and>
   hasTool ''echo'' echoClockRegistry \<and>
   validateTool echoTool = Inr echoValidated \<and>
   registerTool echoTool echoClockRegistry = (Inl (DuplicateNameError ''echo''), echoClockRegistry) \<and>
   blankEchoTool = JObj [(''name'', JStr ''echo''), (''description'', JStr '''')] \<and>
   map_of [(''name'', JStr ''echo''), (''description'', JStr '''')] ''name'' = Some (JStr ''echo'') \<and>
   validateTool blankEchoTool = Inl ValidationError \<and>
   registerTool blankEchoTool echoClockRegistry = (Inl ValidationError, echoClockRegistry)"
proof -
  have h: "hasTool ''echo'' echoClockRegistry"
    by (simp add: hasTool_def echoClockRegistry_def)
  have n1: "map_of [(''name'', JStr ''echo''), (''description'', JStr ''Repeats its input''),
     (''tags'', JArr [JStr ''util'', JStr ''text''])] ''name'' = Some (JStr ''echo'')" by simp
  have n2: "map_of [(''name'', JStr ''echo''), (''description'', JStr '''')] ''name''
     = Some (JStr ''echo'')" by simp
  from duplicate_name_fails[OF echoTool_def n1 h]
  have 1: "registerTool echoTool echoClockRegistry
     = (Inl (DuplicateNameError ''echo''), echoClockRegistry)"
    by (simp add: validate_echoTool)
  from duplicate_name_fails[OF blankEchoTool_def n2 h]
  have 2: "registerTool blankEchoTool echoClockRegistry = (Inl ValidationError, echoClockRegistry)"
    by (simp add: validate_blankEchoTool)
  from 1 2 h n1 n2 validate_echoTool validate_blankEchoTool echoTool_def blankEchoTool_def
  show ?thesis by (simp only: simp_thms)
qed

lemma registerTools_append:
  "registerTools (ts1 @ ts2) r =
     (case registerTools ts1 r of
        (Inl e, r1) \<Rightarrow> (Inl e, r1)
      | (Inr vs, r1) \<Rightarrow>
          (case registerTools ts2 r1 of
             (Inl e, r2) \<Rightarrow> (Inl e, r2)
           | (Inr ws, r2) \<Rightarrow> (Inr (vs @ ws), r2)))"
  by (induction ts1 arbitrary: r) (auto split: prod.splits sum.splits)

lemma registerTool_keeps:
  assumes "registerTool t r = (Inr v, r')" and "getTool n r = Some w"
  shows "getTool n r' = Some w"
proof -
  from registerTool_tools[OF assms(1)] have a: "map_of (tools r) (name v) = None"
    and b: "tools r' = AList.update (name v) v (tools r)" by auto
  from a assms(2) have "n \<noteq> name v" by (auto simp: getTool_def)
  with b assms(2) show ?thesis by (simp add: getTool_def update_conv')
qed

lemma registerTool_has:
  assumes "registerTool t r = (Inr v, r')"
  shows "getTool (name v) r' = Some v"
  using registerTool_tools[OF assms] by (simp add: getTool_def update_conv')

lemma registerTools_keeps:
  "registerTools ts r = (Inr vs, r') \<Longrightarrow> getTool n r = Some w \<Longrightarrow> getTool n r' = Some w"
proof (induction ts arbitrary: r vs)
  case Nil
  then show ?case by simp
next
  case (Cons t ts)
  then show ?case
    by (auto split: prod.splits sum.splits dest: registerTool_keeps)
qed

lemma registerTools_registered:
  "registerTools ts r = (Inr vs, r') \<Longrightarrow> v \<in> set vs \<Longrightarrow> getTool (name v) r' = Some v"
proof (induction ts arbitrary: r vs)
  case Nil
  then show ?case by simp
next
  case (Cons t ts)
  from Cons.prems(1) obtain w r1 ws where
    1: "registerTool t r = (Inr w, r1)" and 2: "registerTools ts r1 = (Inr ws, r')" and 3: "vs = w # ws"
    by (auto split: prod.splits sum.splits)
  show ?case
  proof (cases "v = w")
    case True
    with registerTool_has[OF 1] registerTools_keeps[OF 2] show ?thesis by simp
  next
    case False
    with Cons.prems(2) 3 have "v \<in> set ws" by simp
    with Cons.IH[OF 2] show ?thesis by simp
  qed
qed

text \<open>
  C5. \<open>registerTools\<close> registers in order and does not roll back. If the tools \<open>ts1\<close>
  register (giving \<open>vs\<close> and the registry \<open>r1\<close>) and registering the next tool \<open>t\<close>
  fails with \<open>e\<close>, then \<open>registerTools\<close> on \<open>ts1\<close>, \<open>t\<close> and any further tools \<open>ts2\<close>
  fails with \<open>e\<close> and leaves the registry \<open>r1\<close>: every tool of \<open>vs\<close> is in it, and
  neither \<open>t\<close> nor a tool of \<open>ts2\<close> has changed it.
\<close>

theorem registerTools_no_rollback:
  assumes "registerTools ts1 r = (Inr vs, r1)" and "fst (registerTool t r1) = Inl e"
  shows "registerTools (ts1 @ t # ts2) r = (Inl e, r1) \<and>
         (\<forall>v \<in> set vs. getTool (name v) r1 = Some v)"
proof -
  from assms(2) registerTool_fails_unchanged[OF assms(2)]
  have "registerTool t r1 = (Inl e, r1)" by (cases "registerTool t r1") simp
  with assms(1) have "registerTools (ts1 @ t # ts2) r = (Inl e, r1)"
    by (simp add: registerTools_append)
  with registerTools_registered[OF assms(1)] show ?thesis by blast
qed

theorem registerTools_no_rollback_witness:
  "registerTools [clockTool] echoRegistry = (Inr [clockValidated], echoClockRegistry) \<and>
   fst (registerTool echoTool echoClockRegistry) = Inl (DuplicateNameError ''echo'') \<and>
   registerTools ([clockTool] @ echoTool # [JNull]) echoRegistry
     = (Inl (DuplicateNameError ''echo''), echoClockRegistry) \<and>
   getTool (name clockValidated) echoClockRegistry = Some clockValidated"
proof -
  have a: "registerTools [clockTool] echoRegistry = (Inr [clockValidated], echoClockRegistry)"
    by (simp add: register_clockTool)
  have h: "hasTool (name echoValidated) echoClockRegistry"
    by (simp add: hasTool_def echoValidated_def echoClockRegistry_def)
  have b: "fst (registerTool echoTool echoClockRegistry) = Inl (DuplicateNameError ''echo'')"
    by (simp add: registerTool_def validate_echoTool)
       (simp add: echoValidated_def echoClockRegistry_def)
  from registerTools_no_rollback[OF a b, of "[JNull]"] a b show ?thesis by simp
qed

section \<open>Lookup by tag\<close>

lemma resolveNames_missing:
  "n \<in> set ns \<Longrightarrow> map_of ts n = None \<Longrightarrow>
     \<exists>m. m \<in> set ns \<and> map_of ts m = None \<and> resolveNames ts ns = Inl (RegistryCorruptionError m)"
  by (induction ns) (auto split: option.splits sum.splits)

text \<open>
  C7. For a tag that is not a key of the tag index \<open>getToolsByTag\<close> returns the empty
  list and no error. If the index maps the tag to names of which one is not a key of the
  tools map, \<open>getToolsByTag\<close> fails with \<open>RegistryCorruptionError\<close>, on such a name.
\<close>

theorem getToolsByTag_unknown_or_corrupt:
  "(tag \<notin> set (getAllTags r) \<longrightarrow> getToolsByTag tag r = Inr []) \<and>
   (map_of (tags r) tag = Some ns \<and> n \<in> set ns \<and> getTool n r = None \<longrightarrow>
      (\<exists>m. m \<in> set ns \<and> getTool m r = None \<and>
           getToolsByTag tag r = Inl (RegistryCorruptionError m)))"
proof -
  have "getToolsByTag tag r = Inr []" if "tag \<notin> set (getAllTags r)"
  proof -
    from that have "map_of (tags r) tag = None"
      by (simp add: getAllTags_def map_of_eq_None_iff)
    then show ?thesis by (simp add: getToolsByTag_def)
  qed
  moreover have "\<exists>m. m \<in> set ns \<and> getTool m r = None \<and>
      getToolsByTag tag r = Inl (RegistryCorruptionError m)"
    if "map_of (tags r) tag = Some ns" and "n \<in> set ns" and "getTool n r = None"
    using that resolveNames_missing[of n ns "tools r"]
    by (simp add: getToolsByTag_def getTool_def)
  ultimately show ?thesis by blast
qed

theorem getToolsByTag_unknown_or_corrupt_witness:
  "''nonexistent-tag'' \<notin> set (getAllTags emptyRegistry) \<and>
   getToolsByTag ''nonexistent-tag'' emptyRegistry = Inr [] \<and>
   map_of (tags corruptRegistry) ''util'' = Some [''echo'', ''ghost''] \<and>
   getTool ''ghost'' corruptRegistry = None \<and>
   getToolsByTag ''util'' corruptRegistry = Inl (RegistryCorruptionError ''ghost'')"
proof -
  have a: "''nonexistent-tag'' \<notin> set (getAllTags emptyRegistry)"
    by (simp add: getAllTags_def emptyRegistry_def)
  have b: "map_of (tags corruptRegistry) ''util'' = Some [''echo'', ''ghost'']"
    by (simp add: corruptRegistry_def)
  have c: "getTool ''ghost'' corruptRegistry = None"
    by (simp add: getTool_def corruptRegistry_def)
  have d: "getTool ''echo'' corruptRegistry \<noteq> None"
    by (simp add: getTool_def corruptRegistry_def)
  from getToolsByTag_unknown_or_corrupt[where tag = "''nonexistent-tag''" and r = emptyRegistry]
    getToolsByTag_unknown_or_corrupt[where tag = "''util''" and r = corruptRegistry
      and ns = "[''echo'', ''ghost'']" and n = "''ghost''"]
    a b c d show ?thesis by auto
qed

section \<open>The tag index\<close>

lemma bucket_indexTag:
  "bucket (indexTag n idx tag) t = (if t = tag then insert n (bucket idx t) else bucket idx t)"
  by (auto simp: indexTag_def bucket_def Let_def update_conv' setAdd_def split: option.splits if_splits)

lemma bucket_foldl_indexTag:
  "bucket (foldl (indexTag n) idx ts) t = (if t \<in> set ts then insert n (bucket idx t) else bucket idx t)"
  by (induction ts arbitrary: idx) (auto simp: bucket_indexTag)

lemma noEmptyBucket_indexTag:
  "noEmptyBucket idx \<Longrightarrow> noEmptyBucket (indexTag n idx tag)"
  by (auto simp: noEmptyBucket_def indexTag_def Let_def update_conv' setAdd_def split: option.splits if_splits)

lemma noEmptyBucket_foldl_indexTag:
  "noEmptyBucket idx \<Longrightarrow> noEmptyBucket (foldl (indexTag n) idx ts)"
  by (induction ts arbitrary: idx) (auto simp: noEmptyBucket_indexTag)

lemma removeAll_empty:
  "removeAll n xs = [] \<Longrightarrow> x \<in> set xs \<Longrightarrow> x = n"
  using set_removeAll[of n xs] by auto

lemma bucket_unindexTag:
  "bucket (unindexTag n idx tag) t = (if t = tag then bucket idx t - {n} else bucket idx t)"
  by (auto simp: unindexTag_def bucket_def Let_def update_conv' delete_conv'
      dest: removeAll_empty split: option.splits if_splits)

lemma bucket_foldl_unindexTag:
  "bucket (foldl (unindexTag n) idx ts) t = (if t \<in> set ts then bucket idx t - {n} else bucket idx t)"
  by (induction ts arbitrary: idx) (auto simp: bucket_unindexTag)

lemma noEmptyBucket_unindexTag:
  "noEmptyBucket idx \<Longrightarrow> noEmptyBucket (unindexTag n idx tag)"
  by (auto simp: noEmptyBucket_def unindexTag_def Let_def update_conv' delete_conv' split: option.splits if_splits)

lemma noEmptyBucket_foldl_unindexTag:
  "noEmptyBucket idx \<Longrightarrow> noEmptyBucket (foldl (unindexTag n) idx ts)"
  by (induction ts arbitrary: idx) (auto simp: noEmptyBucket_unindexTag)

lemma registerTool_state:
  "snd (registerTool t r) = r \<or>
   (\<exists>v. validateTool t = Inr v \<and> map_of (tools r) (name v) = None \<and>
        tools (snd (registerTool t r)) = AList.update (name v) v (tools r) \<and>
        tags (snd (registerTool t r)) = foldl (indexTag (name v)) (tags r) (toolTags v))"
  by (cases "validateTool t")
     (auto simp: registerTool_def Let_def toolTags_def split: option.splits)

lemma consistent_registerTool:
  assumes "consistent r"
  shows "consistent (snd (registerTool t r))"
proof -
  let ?r' = "snd (registerTool t r)"
  from registerTool_state[of t r] show ?thesis
  proof
    assume "?r' = r"
    with assms show ?thesis by simp
  next
    assume "\<exists>v. validateTool t = Inr v \<and> map_of (tools r) (name v) = None \<and>
        tools ?r' = AList.update (name v) v (tools r) \<and>
        tags ?r' = foldl (indexTag (name v)) (tags r) (toolTags v)"
    then obtain v where fresh: "map_of (tools r) (name v) = None"
      and tl: "tools ?r' = AList.update (name v) v (tools r)"
      and tg: "tags ?r' = foldl (indexTag (name v)) (tags r) (toolTags v)"
      by blast
    from assms have inv: "\<And>t n. n \<in> bucket (tags r) t \<longleftrightarrow>
        (\<exists>tool. map_of (tools r) n = Some tool \<and> t \<in> set (toolTags tool))"
      and ne: "noEmptyBucket (tags r)"
      by (auto simp: consistent_def)
    have "n \<in> bucket (tags ?r') t \<longleftrightarrow>
        (\<exists>tool. map_of (tools ?r') n = Some tool \<and> t \<in> set (toolTags tool))" for t n
    proof (cases "n = name v")
      case True
      with fresh inv[of n t] show ?thesis
        by (simp add: tl tg bucket_foldl_indexTag update_conv')
    next
      case False
      with inv[of n t] show ?thesis
        by (simp add: tl tg bucket_foldl_indexTag update_conv')
    qed
    moreover have "noEmptyBucket (tags ?r')"
      using ne by (simp add: tg noEmptyBucket_foldl_indexTag)
    ultimately show ?thesis by (simp add: consistent_def)
  qed
qed

lemma consistent_registerTools:
  "consistent r \<Longrightarrow> consistent (snd (registerTools ts r))"
proof (induction ts arbitrary: r)
  case Nil
  then show ?case by simp
next
  case (Cons t ts)
  from consistent_registerTool[OF Cons.prems, of t] have c: "consistent (snd (registerTool t r))" .
  show ?case
  proof (cases "registerTool t r")
    case (Pair res r1)
    with c have c1: "consistent r1" by simp
    show ?thesis
    proof (cases res)
      case (Inl e)
      with Pair c1 show ?thesis by simp
    next
      case (Inr v)
      from Cons.IH[OF c1] have "consistent (snd (registerTools ts r1))" .
      with Pair Inr show ?thesis by (auto split: prod.splits sum.splits)
    qed
  qed
qed

lemma unregisterTool_state:
  "map_of (tools r) n = Some tool \<Longrightarrow>
     unregisterTool n r = (True, r\<lparr>tools := AList.delete n (tools r),
        tags := foldl (unindexTag n) (tags r) (toolTags tool)\<rparr>)"
  by (auto simp: unregisterTool_def Let_def toolTags_def split: option.splits)

lemma consistent_unregisterTool:
  assumes "consistent r"
  shows "consistent (snd (unregisterTool n r))"
proof (cases "map_of (tools r) n")
  case None
  with assms show ?thesis by (simp add: unregisterTool_def)
next
  case (Some tool)
  from assms have inv: "\<And>t m. m \<in> bucket (tags r) t \<longleftrightarrow>
      (\<exists>tool. map_of (tools r) m = Some tool \<and> t \<in> set (toolTags tool))"
    and ne: "noEmptyBucket (tags r)"
    by (auto simp: consistent_def)
  have "m \<in> bucket (foldl (unindexTag n) (tags r) (toolTags tool)) t \<longleftrightarrow>
      (\<exists>tool. map_of (AList.delete n (tools r)) m = Some tool \<and> t \<in> set (toolTags tool))" for t m
    using inv[of m t] Some by (auto simp: bucket_foldl_unindexTag delete_conv')
  with ne show ?thesis
    by (simp add: unregisterTool_state[OF Some] consistent_def noEmptyBucket_foldl_unindexTag)
qed

lemma consistent_emptyRegistry: "consistent emptyRegistry"
  by (simp add: consistent_def emptyRegistry_def bucket_def noEmptyBucket_def)

lemma consistent_clear: "consistent (clear r)"
  by (simp add: consistent_def clear_def bucket_def noEmptyBucket_def)

lemma reachable_consistent: "reachable r \<Longrightarrow> consistent r"
  by (induction rule: reachable.induct)
     (simp_all add: consistent_emptyRegistry consistent_registerTool consistent_registerTools
        consistent_unregisterTool consistent_clear)

text \<open>No call gives a map a key twice, or a bucket a name twice.\<close>

lemma distinctIndex_update:
  "distinctIndex idx \<Longrightarrow> distinct ns \<Longrightarrow> distinctIndex (AList.update t ns idx)"
  by (simp add: distinctIndex_def update_conv' distinct_update)

lemma distinctIndex_delete:
  "distinctIndex idx \<Longrightarrow> distinctIndex (AList.delete t idx)"
  by (simp add: distinctIndex_def delete_conv' distinct_delete)

lemma distinctIndex_lookup:
  "distinctIndex idx \<Longrightarrow> map_of idx t = Some ns \<Longrightarrow> distinct ns"
  by (simp add: distinctIndex_def)

lemma distinct_setAdd: "distinct ns \<Longrightarrow> distinct (setAdd n ns)"
  by (simp add: setAdd_def)

lemma distinctIndex_indexTag:
  assumes "distinctIndex idx"
  shows "distinctIndex (indexTag n idx tag)"
proof (cases "map_of idx tag")
  case None
  have "distinctIndex (AList.update tag [] idx)"
    using assms by (rule distinctIndex_update) simp
  then have "distinctIndex (AList.update tag (setAdd n []) (AList.update tag [] idx))"
    by (rule distinctIndex_update) (simp add: setAdd_def)
  with None show ?thesis by (simp add: indexTag_def update_conv')
next
  case (Some ns)
  from distinctIndex_lookup[OF assms Some] have "distinct (setAdd n ns)" by (rule distinct_setAdd)
  with assms have "distinctIndex (AList.update tag (setAdd n ns) idx)"
    by (rule distinctIndex_update)
  with Some show ?thesis by (simp add: indexTag_def)
qed

lemma distinctIndex_foldl_indexTag:
  "distinctIndex idx \<Longrightarrow> distinctIndex (foldl (indexTag n) idx ts)"
  by (induction ts arbitrary: idx) (auto simp: distinctIndex_indexTag)

lemma distinctIndex_unindexTag:
  assumes "distinctIndex idx"
  shows "distinctIndex (unindexTag n idx tag)"
proof (cases "map_of idx tag")
  case None
  with assms show ?thesis by (simp add: unindexTag_def)
next
  case (Some ns)
  from distinctIndex_lookup[OF assms Some] have "distinct (removeAll n ns)"
    by (rule distinct_removeAll)
  with assms have "distinctIndex (AList.update tag (removeAll n ns) idx)"
    by (rule distinctIndex_update)
  with Some distinctIndex_delete[OF assms, of tag] show ?thesis
    by (simp add: unindexTag_def Let_def)
qed

lemma distinctIndex_foldl_unindexTag:
  "distinctIndex idx \<Longrightarrow> distinctIndex (foldl (unindexTag n) idx ts)"
  by (induction ts arbitrary: idx) (auto simp: distinctIndex_unindexTag)

lemma distinctKeys_registerTool:
  assumes "distinctKeys r"
  shows "distinctKeys (snd (registerTool t r))"
proof -
  from registerTool_state[of t r] show ?thesis
  proof
    assume "snd (registerTool t r) = r"
    with assms show ?thesis by simp
  next
    assume "\<exists>v. validateTool t = Inr v \<and> map_of (tools r) (name v) = None \<and>
        tools (snd (registerTool t r)) = AList.update (name v) v (tools r) \<and>
        tags (snd (registerTool t r)) = foldl (indexTag (name v)) (tags r) (toolTags v)"
    then obtain v where
      "tools (snd (registerTool t r)) = AList.update (name v) v (tools r)"
      "tags (snd (registerTool t r)) = foldl (indexTag (name v)) (tags r) (toolTags v)"
      by blast
    with assms show ?thesis
      by (simp add: distinctKeys_def distinct_update distinctIndex_foldl_indexTag)
  qed
qed

lemma distinctKeys_registerTools:
  "distinctKeys r \<Longrightarrow> distinctKeys (snd (registerTools ts r))"
proof (induction ts arbitrary: r)
  case Nil
  then show ?case by simp
next
  case (Cons t ts)
  from distinctKeys_registerTool[OF Cons.prems, of t] have c: "distinctKeys (snd (registerTool t r))" .
  show ?case
  proof (cases "registerTool t r")
    case (Pair res r1)
    with c have c1: "distinctKeys r1" by simp
    show ?thesis
    proof (cases res)
      case (Inl e)
      with Pair c1 show ?thesis by simp
    next
      case (Inr v)
      from Cons.IH[OF c1] have "distinctKeys (snd (registerTools ts r1))" .
      with Pair Inr show ?thesis by (auto split: prod.splits sum.splits)
    qed
  qed
qed

lemma distinctKeys_unregisterTool:
  assumes "distinctKeys r"
  shows "distinctKeys (snd (unregisterTool n r))"
proof (cases "map_of (tools r) n")
  case None
  with assms show ?thesis by (simp add: unregisterTool_def)
next
  case (Some tool)
  with assms show ?thesis
    by (simp add: unregisterTool_state[OF Some] distinctKeys_def distinct_delete
        distinctIndex_foldl_unindexTag)
qed

lemma reachable_distinctKeys: "reachable r \<Longrightarrow> distinctKeys r"
proof (induction rule: reachable.induct)
  case new
  show ?case by (simp add: distinctKeys_def distinctIndex_def emptyRegistry_def)
next
  case (clear r)
  show ?case by (simp add: distinctKeys_def distinctIndex_def clear_def)
qed (simp_all add: distinctKeys_registerTool distinctKeys_registerTools distinctKeys_unregisterTool)

text \<open>
  C2. In every registry that a sequence of \<open>registerTool\<close>, \<open>registerTools\<close>,
  \<open>unregisterTool\<close> and \<open>clear\<close> calls makes of a new one, the name \<open>n\<close> is in the
  bucket of the tag \<open>t\<close> exactly when \<open>n\<close> is a key of the tools map and \<open>t\<close> is one of
  the tags of the tool stored under \<open>n\<close>; and no bucket of the index is empty.
\<close>

theorem tag_index_consistent:
  assumes "reachable r"
  shows "(\<forall>t n. n \<in> bucket (tags r) t \<longleftrightarrow>
            (\<exists>tool. getTool n r = Some tool \<and> t \<in> set (toolTags tool))) \<and>
         (\<forall>t names. map_of (tags r) t = Some names \<longrightarrow> names \<noteq> [])"
  using reachable_consistent[OF assms]
  by (simp add: consistent_def noEmptyBucket_def getTool_def)

theorem tag_index_consistent_witness:
  "reachable echoClockRegistry \<and>
   ''clock'' \<in> bucket (tags echoClockRegistry) ''util'' \<and>
   (\<exists>tool. getTool ''clock'' echoClockRegistry = Some tool \<and> ''util'' \<in> set (toolTags tool)) \<and>
   ''clock'' \<notin> bucket (tags echoClockRegistry) ''text'' \<and>
   \<not> (\<exists>tool. getTool ''clock'' echoClockRegistry = Some tool \<and> ''text'' \<in> set (toolTags tool)) \<and>
   map_of (tags echoClockRegistry) ''text'' = Some [''echo'']"
proof -
  have a: "''clock'' \<in> bucket (tags echoClockRegistry) ''util''"
    and b: "''clock'' \<notin> bucket (tags echoClockRegistry) ''text''"
    and c: "map_of (tags echoClockRegistry) ''text'' = Some [''echo'']"
    by (simp_all add: bucket_def echoClockRegistry_def)
  from tag_index_consistent[OF reachable_echoClockRegistry] a b c reachable_echoClockRegistry
  show ?thesis by blast
qed

section \<open>Removal\<close>

text \<open>
  C8. \<open>unregisterTool n\<close> returns false and the registry unchanged when no tool is
  stored under \<open>n\<close>. When one is, in a registry that calls have made of a new one, it
  returns true; afterwards \<open>n\<close> is not a key of the tools map and the other tools are
  as before, every bucket is the bucket of before without \<open>n\<close>, and no bucket is empty
  (a bucket that has lost its last name is deleted).
\<close>

theorem unregisterTool_effect:
  "(getTool n r = None \<longrightarrow> unregisterTool n r = (False, r)) \<and>
   (reachable r \<and> getTool n r = Some tool \<longrightarrow>
      (\<exists>r'. unregisterTool n r = (True, r') \<and>
            getTool n r' = None \<and>
            (\<forall>m. m \<noteq> n \<longrightarrow> getTool m r' = getTool m r) \<and>
            (\<forall>t. bucket (tags r') t = bucket (tags r) t - {n}) \<and>
            (\<forall>t names. map_of (tags r') t = Some names \<longrightarrow> names \<noteq> [])))"
proof -
  have "unregisterTool n r = (False, r)" if "getTool n r = None"
    using that by (simp add: unregisterTool_def getTool_def)
  moreover have "\<exists>r'. unregisterTool n r = (True, r') \<and>
            getTool n r' = None \<and>
            (\<forall>m. m \<noteq> n \<longrightarrow> getTool m r' = getTool m r) \<and>
            (\<forall>t. bucket (tags r') t = bucket (tags r) t - {n}) \<and>
            (\<forall>t names. map_of (tags r') t = Some names \<longrightarrow> names \<noteq> [])"
    if re: "reachable r" and some: "getTool n r = Some tool"
  proof -
    from some have s: "map_of (tools r) n = Some tool" by (simp add: getTool_def)
    let ?r' = "r\<lparr>tools := AList.delete n (tools r),
        tags := foldl (unindexTag n) (tags r) (toolTags tool)\<rparr>"
    from reachable_consistent[OF re] have inv: "\<And>t m. m \<in> bucket (tags r) t \<longleftrightarrow>
        (\<exists>tool. map_of (tools r) m = Some tool \<and> t \<in> set (toolTags tool))"
      and ne: "noEmptyBucket (tags r)"
      by (auto simp: consistent_def)
    have "bucket (tags ?r') t = bucket (tags r) t - {n}" for t
      using inv[of n t] s by (auto simp: bucket_foldl_unindexTag)
    moreover have "\<forall>t names. map_of (tags ?r') t = Some names \<longrightarrow> names \<noteq> []"
      using noEmptyBucket_foldl_unindexTag[OF ne, of n "toolTags tool"]
      by (simp add: noEmptyBucket_def)
    moreover have "getTool n ?r' = None" "\<forall>m. m \<noteq> n \<longrightarrow> getTool m ?r' = getTool m r"
      by (simp_all add: getTool_def delete_conv')
    ultimately show ?thesis
      using unregisterTool_state[OF s] by blast
  qed
  ultimately show ?thesis by blast
qed

lemma unregister_echo: "unregisterTool ''echo'' echoClockRegistry = (True, clockRegistry)"
  by (simp add: unregisterTool_def echoClockRegistry_def clockRegistry_def echoValidated_def
      unindexTag_def AList.delete_eq)

theorem unregisterTool_effect_witness:
  "getTool ''ghost'' echoClockRegistry = None \<and>
   unregisterTool ''ghost'' echoClockRegistry = (False, echoClockRegistry) \<and>
   reachable echoClockRegistry \<and>
   getTool ''echo'' echoClockRegistry = Some echoValidated \<and>
   unregisterTool ''echo'' echoClockRegistry = (True, clockRegistry) \<and>
   getTool ''echo'' clockRegistry = None \<and>
   getTool ''clock'' clockRegistry = getTool ''clock'' echoClockRegistry \<and>
   bucket (tags clockRegistry) ''util'' = bucket (tags echoClockRegistry) ''util'' - {''echo''} \<and>
   map_of (tags clockRegistry) ''text'' = None"
proof -
  have a: "getTool ''ghost'' echoClockRegistry = None"
    and b: "getTool ''echo'' echoClockRegistry = Some echoValidated"
    by (simp_all add: getTool_def echoClockRegistry_def)
  have c: "map_of (tags clockRegistry) ''text'' = None"
    by (simp add: clockRegistry_def)
  from unregisterTool_effect[where n = "''ghost''" and r = echoClockRegistry]
    unregisterTool_effect[where n = "''echo''" and r = echoClockRegistry and tool = echoValidated]
    a b c reachable_echoClockRegistry unregister_echo
  show ?thesis by auto
qed

section \<open>What validation checks and what it keeps\<close>

text \<open>
  \<^verbatim>\<open>requiredParameters\<close> is parsed on its own: any list of names in its place validates
  whenever the tool does, whatever the parameters are.
\<close>

lemma z_array_strings: "z_array z_string (jstrings rs) = Some rs"
  by (induction rs) (simp_all add: z_array_def jstrings_def z_string_def)

lemma requiredParameters_unchecked:
  assumes "validateTool (JObj kvs) = Inr v"
  shows "validateTool (JObj (AList.update ''requiredParameters'' (jstrings rs) kvs))
           = Inr (v\<lparr>requiredParameters := Some rs\<rparr>)"
proof -
  from assms have "toolSchema (JObj kvs) = Some v"
    by (simp add: validateTool_def split: option.splits)
  then have "toolSchema (JObj (AList.update ''requiredParameters'' (jstrings rs) kvs))
      = Some (v\<lparr>requiredParameters := Some rs\<rparr>)"
    by (auto simp: toolSchema_def update_conv' bind_eq_Some_conv z_optional_def z_array_strings)
  then show ?thesis by (simp add: validateTool_def)
qed

text \<open>
  C9. Validation is structural. \<open>lookupTool\<close> lists the required parameter \<open>ghost\<close>,
  which is not a key of its parameters, and its example has the input \<open>field\<close>, which
  is not one either; \<open>validateTool\<close> succeeds on it and returns it as it is.
\<close>

theorem validateTool_structural:
  "validateTool lookupTool = Inr lookupValidated \<and>
   (\<exists>ps rs ex. parameters lookupValidated = Some ps \<and> requiredParameters lookupValidated = Some rs \<and>
      ''ghost'' \<in> set rs \<and> map_of ps ''ghost'' = None \<and>
      examples lookupValidated = Some [ex] \<and> map fst (ex_input ex) = [''field''] \<and>
      map_of ps ''field'' = None)"
proof -
  have "validateTool lookupTool = Inr lookupValidated"
    by (simp add: lookupTool_def lookupValidated_def schema_defs zod_defs)
  then show ?thesis by (simp add: lookupValidated_def)
qed

text \<open>
  When the base schema rejects a value, so do the string, number, boolean and array
  schemas, which make the same four checks. A nested parameter is therefore always the
  result of the base schema, or else of the object schema (whose \<^verbatim>\<open>required\<close> is a
  list, not the boolean).
\<close>

lemma bind_eq_None_iff: "(Option.bind x f = None) \<longleftrightarrow> (x = None \<or> (\<exists>y. x = Some y \<and> f y = None))"
  by (cases x) auto

lemma literal_in_types:
  "l \<in> {''string'', ''number'', ''boolean'', ''array'', ''object''} \<Longrightarrow>
     z_required (z_literal l) x = Some s \<Longrightarrow> z_required (z_enum parameterTypes) x \<noteq> None"
  by (auto simp: z_required_def z_literal_def z_enum_def parameterTypes_def
      split: option.splits jv.splits if_splits)

lemma base_fails_string:
  assumes "toolParameterSchema v = None"
  shows "stringParameterSchema v = None"
proof (cases v)
  case (JObj kvs)
  show ?thesis
  proof (rule ccontr)
    assume "stringParameterSchema v \<noteq> None"
    then obtain n d t r where
      "z_required (z_string_min 1) (map_of kvs ''name'') = Some n"
      "z_required z_string (map_of kvs ''description'') = Some d"
      "z_required (z_literal ''string'') (map_of kvs ''type'') = Some t"
      "z_default z_boolean False (map_of kvs ''required'') = Some r"
      unfolding stringParameterSchema_def JObj
      by (auto simp: bind_eq_Some_conv)
    with literal_in_types[of "''string''" "map_of kvs ''type''" t] assms show False
      unfolding toolParameterSchema_def JObj by (auto simp: bind_eq_None_iff)
  qed
qed (simp_all add: stringParameterSchema_def)


lemma base_fails_number:
  assumes "toolParameterSchema v = None"
  shows "numberParameterSchema v = None"
proof (cases v)
  case (JObj kvs)
  show ?thesis
  proof (rule ccontr)
    assume "numberParameterSchema v \<noteq> None"
    then obtain n d t r where
      "z_required (z_string_min 1) (map_of kvs ''name'') = Some n"
      "z_required z_string (map_of kvs ''description'') = Some d"
      "z_required (z_literal ''number'') (map_of kvs ''type'') = Some t"
      "z_default z_boolean False (map_of kvs ''required'') = Some r"
      unfolding numberParameterSchema_def JObj
      by (auto simp: bind_eq_Some_conv)
    with literal_in_types[of "''number''" "map_of kvs ''type''" t] assms show False
      unfolding toolParameterSchema_def JObj by (auto simp: bind_eq_None_iff)
  qed
qed (simp_all add: numberParameterSchema_def)

lemma base_fails_boolean:
  assumes "toolParameterSchema v = None"
  shows "booleanParameterSchema v = None"
proof (cases v)
  case (JObj kvs)
  show ?thesis
  proof (rule ccontr)
    assume "booleanParameterSchema v \<noteq> None"
    then obtain n d t r where
      "z_required (z_string_min 1) (map_of kvs ''name'') = Some n"
      "z_required z_string (map_of kvs ''description'') = Some d"
      "z_required (z_literal ''boolean'') (map_of kvs ''type'') = Some t"
      "z_default z_boolean False (map_of kvs ''required'') = Some r"
      unfolding booleanParameterSchema_def JObj
      by (auto simp: bind_eq_Some_conv)
    with literal_in_types[of "''boolean''" "map_of kvs ''type''" t] assms show False
      unfolding toolParameterSchema_def JObj by (auto simp: bind_eq_None_iff)
  qed
qed (simp_all add: booleanParameterSchema_def)

lemma base_fails_array:
  assumes "toolParameterSchema v = None"
  shows "arrayParameterSchema v = None"
proof (cases v)
  case (JObj kvs)
  show ?thesis
  proof (rule ccontr)
    assume "arrayParameterSchema v \<noteq> None"
    then obtain n d t r where
      "z_required (z_string_min 1) (map_of kvs ''name'') = Some n"
      "z_required z_string (map_of kvs ''description'') = Some d"
      "z_required (z_literal ''array'') (map_of kvs ''type'') = Some t"
      "z_default z_boolean False (map_of kvs ''required'') = Some r"
      unfolding JObj by (auto simp: bind_eq_Some_conv)
    with literal_in_types[of "''array''" "map_of kvs ''type''" t] assms show False
      unfolding toolParameterSchema_def JObj by (auto simp: bind_eq_None_iff)
  qed
qed simp_all

lemma toolParameterSchema_bare:
  "toolParameterSchema v = Some p \<Longrightarrow> \<exists>n d t r. p = ToolParameter n d t r"
  by (cases v) (auto simp: toolParameterSchema_def bind_eq_Some_conv)

lemma objectParameterSchema_object:
  "objectParameterSchema v = Some p \<Longrightarrow> isObjectParameter p"
  by (cases v) (auto simp: bind_eq_Some_conv)

lemma nested_parameter_bare_or_object:
  assumes "nestedParameterSchema v = Some p"
  shows "(\<exists>n d t r. p = ToolParameter n d t r) \<or> isObjectParameter p"
proof (cases "toolParameterSchema v")
  case (Some b)
  with assms have "p = b" by (simp add: z_or_def)
  with toolParameterSchema_bare[OF Some] show ?thesis by simp
next
  case None
  from base_fails_string[OF None] base_fails_number[OF None] base_fails_boolean[OF None]
    base_fails_array[OF None] None assms
  have "objectParameterSchema v = Some p" by (simp add: z_or_def)
  from objectParameterSchema_object[OF this] show ?thesis by simp
qed

text \<open>
  C10. Validation is not the identity on a nested parameter. \<open>nameItem\<close> on its own
  validates to a string parameter with its \<open>minLength\<close> and \<open>enum\<close>. As the items of
  the array parameter of \<open>greetTool\<close> it is parsed by the base schema, which comes first
  in the union: \<open>validateTool\<close> succeeds, and the items of the result have name,
  description, type and required only.
\<close>

theorem nested_constraints_stripped:
  "validateParameter nameItem = Inr (StringParameter ''n'' ''A name'' False
      \<lparr>s_format = None, minLength = Some 3, maxLength = None, pattern = None,
       s_enum = Some [''ada'', ''bob''], s_default = None\<rparr>) \<and>
   validateTool greetTool = Inr \<lparr>name = ''greet'', description = ''Greets people'',
      parameters = Some [(''names'', ArrayParameter ''names'' ''Whom to greet'' False
         (ToolParameter ''n'' ''A name'' TString False)
         \<lparr>minItems = Some 1, maxItems = None, uniqueItems = None, a_default = None\<rparr>)],
      requiredParameters = None, returns = None, tags = None, examples = None, metadata = None\<rparr>"
  by (simp add: nameItem_def greetTool_def validateParameter_def schema_defs zod_defs)

section \<open>The shape of the converted tool\<close>

lemma toolToJsonSchema_shape:
  assumes "toolToJsonSchema t = Inr out"
  shows "\<exists>props ret.
     out = JObj ([(''name'', JStr (name t)), (''description'', JStr (description t)),
                  (''parameters'', JObj [(''type'', JStr ''object''), (''properties'', JObj props),
                     (''required'', jstrings (case requiredParameters t of None \<Rightarrow> [] | Some rs \<Rightarrow> rs))])]
                 @ ret) \<and>
     (case parameters t of
        None \<Rightarrow> props = []
      | Some ps \<Rightarrow> toolPropertiesToJsonSchema ps (case requiredParameters t of None \<Rightarrow> [] | Some rs \<Rightarrow> rs) = Inr props) \<and>
     (case returns t of
        None \<Rightarrow> ret = []
      | Some p \<Rightarrow> \<exists>j. parameterToJsonSchema p True = Inr j \<and> ret = [(''returns'', j)])"
  using assms
  by (auto simp: toolToJsonSchema_def Let_def split: sum.splits option.splits)

text \<open>
  C6, at a tool that the registry holds. \<open>matrixTool\<close> validates and registers; the
  items of its array parameter are themselves an array, which validation reduces to the
  base keys, without \<open>items\<close>. On the registered tool \<open>toolToJsonSchema\<close> calls its
  helper on the missing items and throws.
\<close>

theorem registered_tool_conversion_throws:
  "registerTool matrixTool emptyRegistry
     = (Inr matrixValidated, \<lparr>tools = [(''sum'', matrixValidated)], tags = []\<rparr>) \<and>
   getTool ''sum'' \<lparr>tools = [(''sum'', matrixValidated)], tags = []\<rparr> = Some matrixValidated \<and>
   toolToJsonSchema matrixValidated = Inl TypeError"
proof -
  have v: "validateTool matrixTool = Inr matrixValidated"
    by (simp add: matrixTool_def matrixValidated_def schema_defs zod_defs)
  have "registerTool matrixTool emptyRegistry
     = (Inr matrixValidated, \<lparr>tools = [(''sum'', matrixValidated)], tags = []\<rparr>)"
    by (simp add: registerTool_def v) (simp add: matrixValidated_def emptyRegistry_def)
  moreover have "toolToJsonSchema matrixValidated = Inl TypeError"
    by (simp add: toolToJsonSchema_def matrixValidated_def)
  ultimately show ?thesis by (simp add: getTool_def)
qed

section \<open>Propagation of the optional constraint keys\<close>

text \<open>
  The helper does not read \<^verbatim>\<open>isRequired\<close>, and what it returns is an object.
\<close>

lemma isRequired_unused:
  "parameterToJsonSchema p b = parameterToJsonSchema p False"
  "propertiesToJsonSchema ps req = propertiesToJsonSchema ps None"
  by (induction p b and ps req rule: parameterToJsonSchema_propertiesToJsonSchema.induct)
     (auto split: sum.splits option.splits ParameterType.splits)

lemma conversion_is_object:
  "parameterToJsonSchema p b = Inr out \<Longrightarrow> \<exists>kvs. out = JObj kvs"
  by (cases p) (auto split: sum.splits option.splits ParameterType.splits)

lemma properties_entries:
  "propertiesToJsonSchema ps req = Inr js \<Longrightarrow> list_all2 convertedEntry (ownEntries ps) js"
proof (induction ps arbitrary: js)
  case Nil
  then show ?case by (simp add: ownEntries_def)
next
  case (Cons a ps)
  obtain k p where a: "a = (k, p)" by (cases a)
  from Cons.prems a obtain b j js' where
    0: "parameterToJsonSchema p b = Inr j" and
    2: "propertiesToJsonSchema ps req = Inr js'" and
    3: "js = (if k = ''__proto__'' then js' else (k, j) # js')"
    by (auto simp: Let_def split: sum.splits)
  from 0 isRequired_unused(1)[of p b] have 1: "parameterToJsonSchema p False = Inr j" by simp
  from Cons.IH[OF 2] 1 3 a show ?case
    by (simp add: ownEntries_def convertedEntry_def)
qed

lemma tool_properties_entries:
  "toolPropertiesToJsonSchema ps required = Inr js \<Longrightarrow> list_all2 convertedEntry (ownEntries ps) js"
proof (induction ps arbitrary: js)
  case Nil
  then show ?case by (simp add: ownEntries_def)
next
  case (Cons a ps)
  obtain k p where a: "a = (k, p)" by (cases a)
  from Cons.prems a obtain b j js' where
    0: "parameterToJsonSchema p b = Inr j" and
    2: "toolPropertiesToJsonSchema ps required = Inr js'" and
    3: "js = (if k = ''__proto__'' then js' else (k, j) # js')"
    by (auto simp: Let_def split: sum.splits)
  from 0 isRequired_unused(1)[of p b] have 1: "parameterToJsonSchema p False = Inr j" by simp
  from Cons.IH[OF 2] 1 3 a show ?case
    by (simp add: ownEntries_def convertedEntry_def)
qed

lemma entries_lookup:
  "list_all2 convertedEntry es js \<Longrightarrow> map_of es k = Some q \<Longrightarrow>
     \<exists>j. parameterToJsonSchema q False = Inr j \<and> map_of js k = Some j"
proof (induction rule: list_all2_induct)
  case Nil
  then show ?case by simp
next
  case (Cons e es c js)
  obtain k' p where e: "e = (k', p)" by (cases e)
  obtain k'' j where c: "c = (k'', j)" by (cases c)
  from Cons.hyps(1) e c have kk: "k'' = k'" and j: "parameterToJsonSchema p False = Inr j"
    by (simp_all add: convertedEntry_def)
  show ?case
  proof (cases "k = k'")
    case True
    with Cons.prems e c kk j show ?thesis by simp
  next
    case False
    with Cons.prems e have "map_of es k = Some q" by simp
    from Cons.IH[OF this] False c kk show ?thesis by simp
  qed
qed

lemma intact_never_throws:
  "intact p \<Longrightarrow> parameterToJsonSchema p b \<noteq> Inl e"
  "allIntact ps \<Longrightarrow> propertiesToJsonSchema ps req \<noteq> Inl e"
  by (induction p and ps arbitrary: b and req rule: intact_allIntact.induct)
     (auto simp: Let_def split: option.splits sum.splits ParameterType.splits)

lemma intact_converts:
  "intact p \<Longrightarrow> \<exists>out. parameterToJsonSchema p b = Inr out"
  using intact_never_throws(1)[of p b] by (cases "parameterToJsonSchema p b") auto

lemma converts_intact:
  "parameterToJsonSchema p b = Inr out \<Longrightarrow> intact p"
  "propertiesToJsonSchema ps req = Inr js \<Longrightarrow> allIntact ps"
  by (induction p and ps arbitrary: b out and req js rule: intact_allIntact.induct)
     (auto simp: Let_def split: option.splits sum.splits ParameterType.splits)

lemma allIntact_tool_converts:
  "allIntact ps \<Longrightarrow> \<exists>js. toolPropertiesToJsonSchema ps required = Inr js"
proof (induction ps)
  case Nil
  then show ?case by simp
next
  case (Cons a ps)
  obtain k p where a: "a = (k, p)" by (cases a)
  with Cons.prems have "intact p" and "allIntact ps" by simp_all
  with Cons.IH intact_converts[of p "k \<in> set required"] a show ?case
    by (auto simp: Let_def)
qed

lemma tool_converts_allIntact:
  "toolPropertiesToJsonSchema ps required = Inr js \<Longrightarrow> allIntact ps"
proof (induction ps arbitrary: js)
  case Nil
  then show ?case by simp
next
  case (Cons a ps)
  obtain k p where a: "a = (k, p)" by (cases a)
  from Cons.prems a obtain j js' where
    "parameterToJsonSchema p (k \<in> set required) = Inr j"
    "toolPropertiesToJsonSchema ps required = Inr js'"
    by (auto simp: Let_def split: sum.splits)
  with Cons.IH converts_intact(1) a show ?case by auto
qed

lemma converts_iff_intact:
  "(\<exists>out. toolToJsonSchema t = Inr out) \<longleftrightarrow> toolIntact t"
proof
  assume "\<exists>out. toolToJsonSchema t = Inr out"
  then show "toolIntact t"
    by (auto simp: toolToJsonSchema_def toolIntact_def Let_def
        split: option.splits sum.splits dest: tool_converts_allIntact converts_intact(1))
next
  assume i: "toolIntact t"
  let ?req = "case requiredParameters t of None \<Rightarrow> [] | Some rs \<Rightarrow> rs"
  have "\<exists>props. (case parameters t of None \<Rightarrow> Inr [] | Some ps \<Rightarrow> toolPropertiesToJsonSchema ps ?req) = Inr props"
  proof (cases "parameters t")
    case None
    then show ?thesis by simp
  next
    case (Some ps)
    with i have "allIntact ps" by (simp add: toolIntact_def)
    from allIntact_tool_converts[OF this, of ?req] Some show ?thesis by simp
  qed
  moreover have "\<exists>ret. (case returns t of None \<Rightarrow> Inr []
      | Some p \<Rightarrow> (case parameterToJsonSchema p True of Inl e \<Rightarrow> Inl e | Inr j \<Rightarrow> Inr [(''returns'', j)]))
      = (Inr ret :: error + (string \<times> jv) list)"
  proof (cases "returns t")
    case None
    then show ?thesis by simp
  next
    case (Some p)
    with i have "intact p" by (simp add: toolIntact_def)
    from intact_converts[OF this, of True] Some show ?thesis by auto
  qed
  ultimately show "\<exists>out. toolToJsonSchema t = Inr out"
    by (auto simp: toolToJsonSchema_def Let_def)
qed

lemma allIntact_lookup:
  "allIntact ps \<Longrightarrow> map_of (ownEntries ps) k = Some q \<Longrightarrow> intact q"
  by (induction ps) (auto simp: ownEntries_def split: if_splits)

lemma intact_paramAt:
  "intact p \<Longrightarrow> paramAt p path = Some q \<Longrightarrow> intact q"
  by (induction p path rule: paramAt.induct)
     (auto split: if_splits option.splits dest: allIntact_lookup)

text \<open>What each key reads as in the converted object of a parameter of each shape.\<close>

lemma map_of_base:
  "map_of (base t d @ rest) k =
     (if k = ''type'' then Some (JStr (typeName t))
      else if k = ''description'' then Some (JStr d) else map_of rest k)"
  "map_of (base t d) k =
     (if k = ''type'' then Some (JStr (typeName t))
      else if k = ''description'' then Some (JStr d) else None)"
  by (simp_all add: base_def)

lemma map_of_ifDefined:
  "map_of (ifDefined k' enc x @ rest) k =
     (if k = k' then (case x of None \<Rightarrow> map_of rest k | Some v \<Rightarrow> Some (enc v)) else map_of rest k)"
  "map_of (ifDefined k' enc x) k = (if k = k' then map_option enc x else None)"
  by (auto simp: ifDefined_def split: option.splits)

lemma map_of_ifTruthy:
  "map_of (ifTruthy k' enc x @ rest) k =
     (if k = k'
      then (case x of None \<Rightarrow> map_of rest k
            | Some v \<Rightarrow> if truthy (enc v) then Some (enc v) else map_of rest k)
      else map_of rest k)"
  "map_of (ifTruthy k' enc x) k =
     (if k = k'
      then (case x of None \<Rightarrow> None | Some v \<Rightarrow> if truthy (enc v) then Some (enc v) else None)
      else None)"
  by (auto simp: ifTruthy_def split: option.splits)

lemma formatName_nonempty [simp]:
  "stringFormatName sf \<noteq> []" "numberFormatName nf \<noteq> []"
  by (cases sf, simp_all) (cases nf, simp_all)

lemma truthy_jstrings [simp]: "truthy (jstrings xs)"
  by (simp add: jstrings_def)

lemma string_lookup:
  assumes "parameterToJsonSchema (StringParameter n d r f) b = Inr (JObj kvs)"
  shows "map_of kvs k =
     (if k = ''type'' then Some (JStr ''string'')
      else if k = ''description'' then Some (JStr d)
      else if k = ''pattern''
        then (case pattern f of None \<Rightarrow> None | Some s \<Rightarrow> if s = [] then None else Some (JStr s))
      else constraintField (StringParameter n d r f) k)"
proof -
  from assms have kvs: "kvs = base TString d
       @ ifTruthy ''format'' (JStr \<circ> stringFormatName) (s_format f)
       @ ifDefined ''minLength'' jint (minLength f)
       @ ifDefined ''maxLength'' jint (maxLength f)
       @ ifTruthy ''pattern'' JStr (pattern f)
       @ ifTruthy ''enum'' jstrings (s_enum f)
       @ ifDefined ''default'' JStr (s_default f)" by simp
  show ?thesis unfolding kvs
    by (simp add: map_of_base map_of_ifDefined map_of_ifTruthy del: map_of_append split: option.split)
qed

lemma number_lookup:
  assumes "parameterToJsonSchema (NumberParameter n d r f) b = Inr (JObj kvs)"
  shows "map_of kvs k =
     (if k = ''type'' then Some (JStr ''number'')
      else if k = ''description'' then Some (JStr d)
      else constraintField (NumberParameter n d r f) k)"
proof -
  from assms have kvs: "kvs = base TNumber d
       @ ifDefined ''minimum'' JNum (minimum f)
       @ ifDefined ''maximum'' JNum (maximum f)
       @ ifDefined ''multipleOf'' JNum (multipleOf f)
       @ ifTruthy ''format'' (JStr \<circ> numberFormatName) (n_format f)
       @ ifDefined ''default'' JNum (n_default f)" by simp
  show ?thesis unfolding kvs
    by (simp add: map_of_base map_of_ifDefined map_of_ifTruthy del: map_of_append split: option.split)
qed

lemma boolean_lookup:
  assumes "parameterToJsonSchema (BooleanParameter n d r df) b = Inr (JObj kvs)"
  shows "map_of kvs k =
     (if k = ''type'' then Some (JStr ''boolean'')
      else if k = ''description'' then Some (JStr d)
      else constraintField (BooleanParameter n d r df) k)"
proof -
  from assms have kvs: "kvs = base TBoolean d @ ifDefined ''default'' JBool df" by simp
  show ?thesis unfolding kvs
    by (simp add: map_of_base map_of_ifDefined del: map_of_append split: option.split)
qed

lemma array_lookup:
  assumes "parameterToJsonSchema (ArrayParameter n d r items f) b = Inr (JObj kvs)"
  obtains i where "parameterToJsonSchema items False = Inr i"
    and "\<And>k. map_of kvs k =
       (if k = ''type'' then Some (JStr ''array'')
        else if k = ''description'' then Some (JStr d)
        else if k = ''items'' then Some i
        else constraintField (ArrayParameter n d r items f) k)"
proof -
  from assms obtain i where i: "parameterToJsonSchema items False = Inr i"
    and kvs: "kvs = base TArray d
          @ [(''items'', i)]
          @ ifDefined ''minItems'' jint (minItems f)
          @ ifDefined ''maxItems'' jint (maxItems f)
          @ ifDefined ''uniqueItems'' JBool (uniqueItems f)
          @ ifDefined ''default'' JArr (a_default f)"
    by (auto split: sum.splits)
  have "map_of kvs k =
       (if k = ''type'' then Some (JStr ''array'')
        else if k = ''description'' then Some (JStr d)
        else if k = ''items'' then Some i
        else constraintField (ArrayParameter n d r items f) k)" for k
    unfolding kvs
    by (simp add: map_of_base map_of_ifDefined del: map_of_append split: option.split)
  with i that show thesis by blast
qed

lemma object_lookup:
  assumes "parameterToJsonSchema (ObjectParameter n d props f) b = Inr (JObj kvs)"
  obtains js where
    "list_all2 convertedEntry (ownEntries (case props of None \<Rightarrow> [] | Some ps \<Rightarrow> ps)) js"
    and "\<And>k. map_of kvs k =
       (if k = ''type'' then Some (JStr ''object'')
        else if k = ''description'' then Some (JStr d)
        else if k = ''properties'' then Some (JObj js)
        else constraintField (ObjectParameter n d props f) k)"
proof -
  from assms obtain js where
    js: "(case props of None \<Rightarrow> js = [] | Some ps \<Rightarrow> propertiesToJsonSchema ps (o_required f) = Inr js)"
    and kvs: "kvs = base TObject d
          @ [(''properties'', JObj js)]
          @ ifTruthy ''required'' jstrings (o_required f)
          @ ifDefined ''additionalProperties'' JBool (additionalProperties f)
          @ ifDefined ''default'' JObj (o_default f)"
    by (auto split: sum.splits option.splits)
  from js have e: "list_all2 convertedEntry (ownEntries (case props of None \<Rightarrow> [] | Some ps \<Rightarrow> ps)) js"
  proof (cases props)
    case None
    with js show ?thesis by (simp add: ownEntries_def)
  next
    case (Some ps)
    with js properties_entries[of ps "o_required f" js] show ?thesis by simp
  qed
  have "map_of kvs k =
       (if k = ''type'' then Some (JStr ''object'')
        else if k = ''description'' then Some (JStr d)
        else if k = ''properties'' then Some (JObj js)
        else constraintField (ObjectParameter n d props f) k)" for k
    unfolding kvs
    by (simp add: map_of_base map_of_ifDefined map_of_ifTruthy del: map_of_append split: option.split)
  with e that show thesis by blast
qed

lemma bare_lookup:
  assumes "parameterToJsonSchema (ToolParameter n d t r) b = Inr (JObj kvs)"
  shows "map_of kvs k =
     (if k = ''type'' then Some (JStr (typeName t))
      else if k = ''description'' then Some (JStr d)
      else if k = ''properties'' then (if t = TObject then Some (JObj []) else None)
      else if k = ''required'' then (if t = TObject \<and> r then Some (JBool True) else None)
      else None)"
proof (cases t)
  case TString
  with assms have kvs: "kvs = base TString d" by simp
  show ?thesis unfolding kvs TString by (simp add: map_of_base del: map_of_append)
next
  case TNumber
  with assms have kvs: "kvs = base TNumber d" by simp
  show ?thesis unfolding kvs TNumber by (simp add: map_of_base del: map_of_append)
next
  case TBoolean
  with assms have kvs: "kvs = base TBoolean d" by simp
  show ?thesis unfolding kvs TBoolean by (simp add: map_of_base del: map_of_append)
next
  case TArray
  with assms show ?thesis by simp
next
  case TObject
  with assms have kvs: "kvs = base TObject d @ [(''properties'', JObj [])]
      @ ifTruthy ''required'' JBool (Some r)" by simp
  show ?thesis unfolding kvs TObject
    by (simp add: map_of_base map_of_ifTruthy del: map_of_append)
qed

lemma propagated_node:
  assumes "parameterToJsonSchema q b = Inr (JObj kvs)"
  shows "propagated q kvs"
proof (cases q)
  case (ToolParameter n d t r)
  note L = bare_lookup[OF assms[unfolded ToolParameter]]
  from assms ToolParameter have t: "t \<noteq> TArray" by auto
  show ?thesis unfolding propagated_def ToolParameter
    using t by (cases r) (auto simp add: L ownEntries_def)
next
  case (StringParameter n d r f)
  note L = string_lookup[OF assms[unfolded StringParameter]]
  have P: "constraintField (StringParameter n d r f) ''pattern'' = map_option JStr (pattern f)"
    "constraintField (StringParameter n d r f) ''items'' = None"
    "constraintField (StringParameter n d r f) ''properties'' = None"
    by simp_all
  show ?thesis unfolding propagated_def StringParameter
    by (auto simp add: L P simp del: constraintField.simps split: option.splits)
next
  case (NumberParameter n d r f)
  note L = number_lookup[OF assms[unfolded NumberParameter]]
  have P: "constraintField (NumberParameter n d r f) ''items'' = None"
    "constraintField (NumberParameter n d r f) ''properties'' = None"
    by simp_all
  show ?thesis unfolding propagated_def NumberParameter
    by (simp add: L P del: constraintField.simps)
next
  case (BooleanParameter n d r df)
  note L = boolean_lookup[OF assms[unfolded BooleanParameter]]
  have P: "constraintField (BooleanParameter n d r df) ''items'' = None"
    "constraintField (BooleanParameter n d r df) ''properties'' = None"
    by simp_all
  show ?thesis unfolding propagated_def BooleanParameter
    by (simp add: L P del: constraintField.simps)
next
  case (ArrayParameter n d r items f)
  from array_lookup[OF assms[unfolded ArrayParameter]] obtain i where
    i: "parameterToJsonSchema items False = Inr i" and
    L: "\<And>k. map_of kvs k =
       (if k = ''type'' then Some (JStr ''array'')
        else if k = ''description'' then Some (JStr d)
        else if k = ''items'' then Some i
        else constraintField (ArrayParameter n d r items f) k)"
    by blast
  have P: "constraintField (ArrayParameter n d r items f) ''properties'' = None"
    by simp
  show ?thesis unfolding propagated_def ArrayParameter
    by (simp add: L P i del: constraintField.simps)
next
  case (ObjectParameter n d props f)
  from object_lookup[OF assms[unfolded ObjectParameter]] obtain js where
    e: "list_all2 convertedEntry (ownEntries (case props of None \<Rightarrow> [] | Some ps \<Rightarrow> ps)) js" and
    L: "\<And>k. map_of kvs k =
       (if k = ''type'' then Some (JStr ''object'')
        else if k = ''description'' then Some (JStr d)
        else if k = ''properties'' then Some (JObj js)
        else constraintField (ObjectParameter n d props f) k)"
    by blast
  have P: "constraintField (ObjectParameter n d props f) ''items'' = None"
    by simp
  show ?thesis unfolding propagated_def ObjectParameter
    by (simp add: L P e del: constraintField.simps)
qed

lemma conversion_path:
  "parameterToJsonSchema p False = Inr out \<Longrightarrow> paramAt p path = Some q \<Longrightarrow>
     \<exists>kvs. jsonAt out path = Some (JObj kvs) \<and> parameterToJsonSchema q False = Inr (JObj kvs)"
proof (induction p path arbitrary: out rule: paramAt.induct)
  case (1 p)
  with conversion_is_object[of p False out] show ?case by auto
next
  case (2 n d r items f k path)
  from "2.prems"(2) have k: "k = ''items''" and at: "paramAt items path = Some q"
    by (simp_all split: if_splits)
  from conversion_is_object[OF "2.prems"(1)] obtain kvs where out: "out = JObj kvs" by blast
  from array_lookup[OF "2.prems"(1)[unfolded out]] obtain i where
    i: "parameterToJsonSchema items False = Inr i" and
    L: "\<And>k. map_of kvs k =
       (if k = ''type'' then Some (JStr ''array'')
        else if k = ''description'' then Some (JStr d)
        else if k = ''items'' then Some i
        else constraintField (ArrayParameter n d r items f) k)"
    by blast
  from L[of "''items''"] have l: "map_of kvs ''items'' = Some i" by simp
  from "2.IH"[OF k i at] obtain kvs' where
    "jsonAt i path = Some (JObj kvs')" "parameterToJsonSchema q False = Inr (JObj kvs')" by blast
  with out l k show ?case by simp
next
  case (3 n d props f k pn path)
  from "3.prems"(2) have k: "k = ''properties''" by (simp split: if_splits)
  from "3.prems"(2) k obtain ps where props: "props = Some ps" by (cases props) simp_all
  from "3.prems"(2) k props obtain q' where pn: "map_of (ownEntries ps) pn = Some q'"
    by (cases "map_of (ownEntries ps) pn") simp_all
  from "3.prems"(2) k props pn have at: "paramAt q' path = Some q" by simp
  from conversion_is_object[OF "3.prems"(1)] obtain kvs where out: "out = JObj kvs" by blast
  from object_lookup[OF "3.prems"(1)[unfolded out]] obtain js where
    e: "list_all2 convertedEntry (ownEntries (case props of None \<Rightarrow> [] | Some ps \<Rightarrow> ps)) js" and
    L: "\<And>k. map_of kvs k =
       (if k = ''type'' then Some (JStr ''object'')
        else if k = ''description'' then Some (JStr d)
        else if k = ''properties'' then Some (JObj js)
        else constraintField (ObjectParameter n d props f) k)"
    by blast
  from L[of "''properties''"] have l: "map_of kvs ''properties'' = Some (JObj js)" by simp
  from e props have "list_all2 convertedEntry (ownEntries ps) js" by simp
  from entries_lookup[OF this pn] obtain j where
    j: "parameterToJsonSchema q' False = Inr j" and lj: "map_of js pn = Some j" by blast
  from "3.IH"[OF k props pn j at] obtain kvs' where
    "jsonAt j path = Some (JObj kvs')" "parameterToJsonSchema q False = Inr (JObj kvs')" by blast
  with out l lj k show ?case by simp
qed simp_all

lemma parameter_propagates:
  assumes "parameterToJsonSchema p b = Inr out" and "paramAt p path = Some q"
  shows "\<exists>kvs. jsonAt out path = Some (JObj kvs) \<and> propagated q kvs"
proof -
  from assms(1) isRequired_unused(1)[of p b] have c: "parameterToJsonSchema p False = Inr out"
    by simp
  from conversion_path[OF c assms(2)] obtain kvs where
    1: "jsonAt out path = Some (JObj kvs)" and 2: "parameterToJsonSchema q False = Inr (JObj kvs)"
    by blast
  from propagated_node[OF 2] 1 show ?thesis by blast
qed

lemma tool_conversion_at_path:
  assumes conv: "toolToJsonSchema t = Inr out" and at: "toolParamAt t path = Some q"
  shows "\<exists>kvs. jsonAt out path = Some (JObj kvs) \<and> propagated q kvs"
proof -
  let ?req = "case requiredParameters t of None \<Rightarrow> [] | Some rs \<Rightarrow> rs"
  from toolToJsonSchema_shape[OF conv] obtain props ret where
    out: "out = JObj ([(''name'', JStr (name t)), (''description'', JStr (description t)),
                  (''parameters'', JObj [(''type'', JStr ''object''), (''properties'', JObj props),
                     (''required'', jstrings ?req)])] @ ret)"
    and props: "(case parameters t of None \<Rightarrow> props = []
        | Some ps \<Rightarrow> toolPropertiesToJsonSchema ps ?req = Inr props)"
    and ret: "(case returns t of None \<Rightarrow> ret = []
        | Some p \<Rightarrow> \<exists>j. parameterToJsonSchema p True = Inr j \<and> ret = [(''returns'', j)])"
    by blast
  from at obtain a rest where path: "path = a # rest"
    by (cases path) (simp_all add: toolParamAt_def)
  show ?thesis
  proof (cases "a = ''returns''")
    case True
    with at path obtain p where p: "returns t = Some p" and pa: "paramAt p rest = Some q"
      by (auto simp: toolParamAt_def split: option.splits)
    from ret p obtain j where j: "parameterToJsonSchema p True = Inr j" and r: "ret = [(''returns'', j)]"
      by auto
    from parameter_propagates[OF j pa] path True r out show ?thesis by simp
  next
    case False
    with at path obtain pn rest' ps p where a: "a = ''parameters''"
      and rest: "rest = ''properties'' # pn # rest'"
      and ps: "parameters t = Some ps" and pn: "map_of (ownEntries ps) pn = Some p"
      and pa: "paramAt p rest' = Some q"
      by (auto simp: toolParamAt_def split: if_splits list.splits option.splits)
    from props ps have conv_ps: "toolPropertiesToJsonSchema ps ?req = Inr props" by simp
    from entries_lookup[OF tool_properties_entries[OF conv_ps] pn] obtain j where
      j: "parameterToJsonSchema p False = Inr j" and l: "map_of props pn = Some j" by blast
    from parameter_propagates[OF j pa] path a rest l out show ?thesis by simp
  qed
qed

lemma propagated_type:
  "propagated q kvs \<Longrightarrow> map_of kvs ''type'' = Some (JStr (typeName (typeOf q)))"
  unfolding propagated_def by (elim conjE)

lemma propagated_description:
  "propagated q kvs \<Longrightarrow> map_of kvs ''description'' = Some (JStr (descriptionOf q))"
  unfolding propagated_def by (elim conjE)

lemma propagated_keys:
  "propagated q kvs \<Longrightarrow>
     \<forall>k. k \<notin> {''type'', ''description'', ''items'', ''properties''} \<longrightarrow>
        map_of kvs k = constraintField q k \<or>
        k \<in> {''pattern'', ''required''} \<and> (\<exists>v. constraintField q k = Some v \<and> \<not> truthy v) \<and>
          map_of kvs k = None"
  unfolding propagated_def by (elim conjE)

lemma propagated_properties:
  "propagated q kvs \<Longrightarrow>
     (if typeOf q = TObject
      then \<exists>js. map_of kvs ''properties'' = Some (JObj js) \<and>
             list_all2 convertedEntry (ownEntries (propertiesOf q)) js
      else map_of kvs ''properties'' = None)"
  unfolding propagated_def by (elim conjE)

lemma propagated_items:
  "propagated q kvs \<Longrightarrow>
     (if typeOf q = TArray
      then \<exists>i j. itemsOf q = Some i \<and> parameterToJsonSchema i False = Inr j \<and>
             map_of kvs ''items'' = Some j
      else map_of kvs ''items'' = None)"
  unfolding propagated_def by (elim conjE)

lemma exception_excluded:
  "N \<longrightarrow> A \<or> M \<and> (\<exists>v. C v \<and> \<not> T v) \<and> Z \<Longrightarrow> N \<Longrightarrow> \<not> M \<or> (\<forall>v. C v \<longrightarrow> T v) \<Longrightarrow> A"
  by blast

lemma propagated_key:
  assumes "propagated q kvs"
    and "k \<notin> {''type'', ''description'', ''items'', ''properties''}"
    and "k \<notin> {''pattern'', ''required''} \<or> (\<forall>v. constraintField q k = Some v \<longrightarrow> truthy v)"
  shows "map_of kvs k = constraintField q k"
  by (rule exception_excluded[OF spec[OF propagated_keys[OF assms(1)], of k] assms(2,3)])

text \<open>
  C1, as the code has it. \<open>toolToJsonSchema\<close> returns on every tool in which no
  parameter of type array, at any depth, lacks its items (by \<open>converts_iff_intact\<close>
  these are all the tools on which it returns). Every parameter \<open>q\<close> of such a tool,
  at any depth, through any chain of objects and arrays, is found by its path in the
  result as an object in which
  \<^item> \<^verbatim>\<open>type\<close> and \<^verbatim>\<open>description\<close> are those of \<open>q\<close>;
  \<^item> every optional key of the variant of \<open>q\<close> but \<^verbatim>\<open>items\<close> and \<^verbatim>\<open>properties\<close> is
    present exactly when \<open>q\<close> has it, with the value that \<open>q\<close> gives it, and no other
    key is present, so that no key is added with a default or a null; a \<^verbatim>\<open>pattern\<close>
    or \<^verbatim>\<open>required\<close> that \<open>q\<close> has with a value that is not truthy may also be
    missing;
  \<^item> \<^verbatim>\<open>properties\<close> is present exactly when \<open>q\<close> is of type object, and holds the
    conversions of the own entries of \<open>q\<close> and nothing else: the empty object when
    \<open>q\<close> has no \<^verbatim>\<open>properties\<close>;
  \<^item> \<^verbatim>\<open>items\<close> is present exactly when \<open>q\<close> is of type array, and holds the
    conversion of the items of \<open>q\<close>.
\<close>

theorem constraints_propagate:
  assumes "toolIntact t"
  shows "\<exists>out. toolToJsonSchema t = Inr out \<and>
           (\<forall>path q. toolParamAt t path = Some q \<longrightarrow>
              (\<exists>kvs. jsonAt out path = Some (JObj kvs) \<and> propagated q kvs))"
proof -
  from assms converts_iff_intact[of t] obtain out where conv: "toolToJsonSchema t = Inr out"
    by blast
  with tool_conversion_at_path[OF conv] show ?thesis by blast
qed

theorem constraints_propagate_witness:
  "validateTool shipTool = Inr shipValidated \<and> toolIntact shipValidated \<and>
   toolParamAt shipValidated [''parameters'', ''properties'', ''address'', ''properties'', ''geo'']
     = Some geoParameter \<and>
   toolParamAt shipValidated [''parameters'', ''properties'', ''labels''] = Some labelsParameter \<and>
   (\<exists>out geo labels. toolToJsonSchema shipValidated = Inr out \<and>
      jsonAt out [''parameters'', ''properties'', ''address'', ''properties'', ''geo'']
        = Some (JObj geo) \<and>
      map_of geo ''type'' = Some (JStr ''object'') \<and>
      map_of geo ''required'' = Some (JArr [JStr ''lat'']) \<and>
      map_of geo ''additionalProperties'' = Some (JBool False) \<and>
      map_of geo ''default'' = None \<and>
      map_of geo ''items'' = None \<and>
      map_of geo ''properties'' = Some (JObj [(''lat'',
        JObj [(''type'', JStr ''number''), (''description'', JStr ''Latitude'')])]) \<and>
      jsonAt out [''parameters'', ''properties'', ''labels''] = Some (JObj labels) \<and>
      map_of labels ''minItems'' = Some (JNum 1) \<and>
      map_of labels ''uniqueItems'' = Some (JBool False) \<and>
      map_of labels ''maxItems'' = None \<and>
      map_of labels ''properties'' = None \<and>
      map_of labels ''items'' = Some (JObj [(''type'', JStr ''object''),
        (''description'', JStr ''A label''),
        (''properties'', JObj [(''text'',
           JObj [(''type'', JStr ''string''), (''description'', JStr ''Text'')])]),
        (''required'', JArr [JStr ''text''])]))"
proof -
  let ?pg = "[''parameters'', ''properties'', ''address'', ''properties'', ''geo'']"
  let ?pl = "[''parameters'', ''properties'', ''labels'']"
  have h: "toolIntact shipValidated"
    by (simp add: toolIntact_def shipValidated_def addressParameter_def geoParameter_def
        labelsParameter_def labelParameter_def)
  have ag: "toolParamAt shipValidated ?pg = Some geoParameter"
    and al: "toolParamAt shipValidated ?pl = Some labelsParameter"
    by (simp_all add: toolParamAt_def shipValidated_def addressParameter_def ownEntries_def)
  from constraints_propagate[OF h] obtain out where
    out: "toolToJsonSchema shipValidated = Inr out" and
    every: "\<And>path q. toolParamAt shipValidated path = Some q \<Longrightarrow>
      \<exists>kvs. jsonAt out path = Some (JObj kvs) \<and> propagated q kvs"
    by blast
  from every[OF ag] obtain geo where
    g: "jsonAt out ?pg = Some (JObj geo)" and pg: "propagated geoParameter geo" by blast
  from every[OF al] obtain labels where
    l: "jsonAt out ?pl = Some (JObj labels)" and pl: "propagated labelsParameter labels" by blast
  have g1: "map_of geo ''type'' = Some (JStr ''object'')"
    using propagated_type[OF pg] by (simp add: geoParameter_def)
  have g2: "map_of geo ''required'' = Some (JArr [JStr ''lat''])"
    using propagated_key[OF pg, of "''required''"] by (simp add: geoParameter_def jstrings_def)
  have g3: "map_of geo ''additionalProperties'' = Some (JBool False)"
    using propagated_key[OF pg, of "''additionalProperties''"] by (simp add: geoParameter_def)
  have g4: "map_of geo ''default'' = None"
    using propagated_key[OF pg, of "''default''"] by (simp add: geoParameter_def)
  have g5: "map_of geo ''items'' = None"
    using propagated_items[OF pg] by (simp add: geoParameter_def)
  from propagated_properties[OF pg] obtain js where js: "map_of geo ''properties'' = Some (JObj js)"
    and e: "list_all2 convertedEntry [(''lat'', ToolParameter ''lat'' ''Latitude'' TNumber False)] js"
    by (auto simp: geoParameter_def ownEntries_def)
  from e have "js = [(''lat'', JObj [(''type'', JStr ''number''), (''description'', JStr ''Latitude'')])]"
    by (auto simp: list_all2_Cons1 convertedEntry_def base_def)
  with js have g6: "map_of geo ''properties'' = Some (JObj [(''lat'',
        JObj [(''type'', JStr ''number''), (''description'', JStr ''Latitude'')])])" by simp
  have l1: "map_of labels ''minItems'' = Some (JNum 1)"
    using propagated_key[OF pl, of "''minItems''"] by (simp add: labelsParameter_def jint_def)
  have l2: "map_of labels ''uniqueItems'' = Some (JBool False)"
    using propagated_key[OF pl, of "''uniqueItems''"] by (simp add: labelsParameter_def)
  have l3: "map_of labels ''maxItems'' = None"
    using propagated_key[OF pl, of "''maxItems''"] by (simp add: labelsParameter_def)
  have l4: "map_of labels ''properties'' = None"
    using propagated_properties[OF pl] by (simp add: labelsParameter_def)
  have l5: "map_of labels ''items'' = Some (JObj [(''type'', JStr ''object''),
        (''description'', JStr ''A label''),
        (''properties'', JObj [(''text'',
           JObj [(''type'', JStr ''string''), (''description'', JStr ''Text'')])]),
        (''required'', JArr [JStr ''text''])])"
    using propagated_items[OF pl]
    by (simp add: labelsParameter_def labelParameter_def base_def ifTruthy_def ifDefined_def
        jstrings_def)
  have "\<exists>out geo labels. toolToJsonSchema shipValidated = Inr out \<and>
      jsonAt out ?pg = Some (JObj geo) \<and>
      map_of geo ''type'' = Some (JStr ''object'') \<and>
      map_of geo ''required'' = Some (JArr [JStr ''lat'']) \<and>
      map_of geo ''additionalProperties'' = Some (JBool False) \<and>
      map_of geo ''default'' = None \<and>
      map_of geo ''items'' = None \<and>
      map_of geo ''properties'' = Some (JObj [(''lat'',
        JObj [(''type'', JStr ''number''), (''description'', JStr ''Latitude'')])]) \<and>
      jsonAt out ?pl = Some (JObj labels) \<and>
      map_of labels ''minItems'' = Some (JNum 1) \<and>
      map_of labels ''uniqueItems'' = Some (JBool False) \<and>
      map_of labels ''maxItems'' = None \<and>
      map_of labels ''properties'' = None \<and>
      map_of labels ''items'' = Some (JObj [(''type'', JStr ''object''),
        (''description'', JStr ''A label''),
        (''properties'', JObj [(''text'',
           JObj [(''type'', JStr ''string''), (''description'', JStr ''Text'')])]),
        (''required'', JArr [JStr ''text''])])"
    by (rule exI[of _ out], rule exI[of _ geo], rule exI[of _ labels])
       (simp only: out g l g1 g2 g3 g4 g5 g6 l1 l2 l3 l4 l5 simp_thms)
  with validate_shipTool h ag al show ?thesis by (simp only: simp_thms)
qed

text \<open>
  C1 as it is stated fails on an object parameter without \<^verbatim>\<open>properties\<close>: the
  validated \<open>pingTool\<close> has the parameter \<open>opts\<close>, whose \<^verbatim>\<open>properties\<close> is absent, and
  its conversion has \<^verbatim>\<open>properties\<close>, the empty object.
\<close>

theorem absent_properties_materialized:
  "validateTool pingTool = Inr pingValidated \<and>
   toolParamAt pingValidated [''parameters'', ''properties'', ''opts''] = Some optsParameter \<and>
   optsParameter = ObjectParameter ''opts'' ''Options'' None
     \<lparr>o_required = None, additionalProperties = None, o_default = None\<rparr> \<and>
   toolToJsonSchema pingValidated = Inr (JObj
     [(''name'', JStr ''ping''), (''description'', JStr ''Pings a host''),
      (''parameters'', JObj
         [(''type'', JStr ''object''),
          (''properties'', JObj
             [(''opts'', JObj [(''type'', JStr ''object''), (''description'', JStr ''Options''),
                 (''properties'', JObj [])])]),
          (''required'', JArr [])])])"
proof -
  have "toolParamAt pingValidated [''parameters'', ''properties'', ''opts''] = Some optsParameter"
    by (simp add: toolParamAt_def pingValidated_def ownEntries_def)
  moreover have "toolToJsonSchema pingValidated = Inr (JObj
     [(''name'', JStr ''ping''), (''description'', JStr ''Pings a host''),
      (''parameters'', JObj
         [(''type'', JStr ''object''),
          (''properties'', JObj
             [(''opts'', JObj [(''type'', JStr ''object''), (''description'', JStr ''Options''),
                 (''properties'', JObj [])])]),
          (''required'', JArr [])])])"
    by (simp add: toolToJsonSchema_def pingValidated_def optsParameter_def base_def
        ifDefined_def ifTruthy_def jstrings_def)
  ultimately show ?thesis using validate_pingTool by (simp add: optsParameter_def)
qed

text \<open>
  The empty pattern is not truthy: it is dropped, while the empty default, tested
  against \<^verbatim>\<open>undefined\<close>, is kept.
\<close>

lemma empty_pattern_dropped:
  "parameterToJsonSchema (StringParameter ''s'' ''d'' False
      \<lparr>s_format = None, minLength = None, maxLength = None, pattern = Some '''',
       s_enum = None, s_default = Some ''''\<rparr>) False
   = Inr (JObj [(''type'', JStr ''string''), (''description'', JStr ''d''), (''default'', JStr '''')])"
  by (simp add: base_def ifDefined_def ifTruthy_def)

end
